theory Spec2Isabelle
  imports Complex_Main "HOL-Library.AList"
begin

section \<open>Values, errors and results\<close>

text \<open>
  The module \<^verbatim>\<open>penn_chime/parameters.py\<close> is dynamically typed: an attribute of the
  argument namespace or of the \<^verbatim>\<open>Parameters\<close> object holds \<^verbatim>\<open>None\<close>, an \<^verbatim>\<open>int\<close>, a
  \<^verbatim>\<open>float\<close>, a \<^verbatim>\<open>str\<close>, a \<^verbatim>\<open>datetime.date\<close>, a \<^verbatim>\<open>Disposition\<close> named tuple or a
  \<^verbatim>\<open>Regions\<close> object. The type \<open>pyval\<close> is the sum of these.

  A \<^verbatim>\<open>float\<close> is modelled by the rational number it denotes: the values the development
  meets are decimal literals compared with the bounds \<open>0\<close>, \<open>0.00001\<close> and \<open>1\<close>, and
  rounding to a double is monotone. Infinities and NaN are not values of the model.
\<close>

datatype date = date (year: nat) (month: nat) (day: nat)

datatype pyval =
    PNone
  | PInt int
  | PFloat rat
  | PStr string
  | PDate date
  | Disposition pyval pyval   \<comment> \<open>the named tuple \<^verbatim>\<open>_Disposition(days, rate)\<close>\<close>
  | PRegions "(string \<times> int) list"   \<comment> \<open>the attributes of a \<^verbatim>\<open>Regions\<close> object\<close>

text \<open>
  Every \<^verbatim>\<open>raise\<close> of the module, every exception of a builtin it calls and every exit of
  \<^verbatim>\<open>argparse\<close> is a value of \<open>error\<close>; a computation that can raise returns \<open>error + 'a\<close>.
\<close>

datatype error =
    CastError string string
    \<comment> \<open>\<^verbatim>\<open>ValueError\<close> of \<^verbatim>\<open>int\<close>, \<^verbatim>\<open>float\<close> or \<^verbatim>\<open>strptime\<close>: the cast and the string\<close>
  | IsRequired string
    \<comment> \<open>\<^verbatim>\<open>ValueError(f'{arg} is required.')\<close>\<close>
  | MustBeGreater string pyval
    \<comment> \<open>\<^verbatim>\<open>ValueError(f'{arg} must be greater than {min_value}.')\<close>\<close>
  | MustBeLess string pyval
    \<comment> \<open>\<^verbatim>\<open>ValueError(f'{arg} must be less than {max_value}.')\<close>\<close>
  | TypeError
    \<comment> \<open>an ordering comparison between a number and a value that is not a number\<close>
  | ArgumentError string string
    \<comment> \<open>\<^verbatim>\<open>argparse\<close>: "argument FLAG: invalid validate value: STRING", exit status 2\<close>
  | ExpectedOneArgument string
    \<comment> \<open>\<^verbatim>\<open>argparse\<close>: "argument FLAG: expected one argument", exit status 2\<close>
  | UnrecognizedArguments "string list"
    \<comment> \<open>\<^verbatim>\<open>argparse\<close>: "unrecognized arguments: ...", exit status 2\<close>
  | HelpExit
    \<comment> \<open>\<^verbatim>\<open>argparse\<close>: \<^verbatim>\<open>-h\<close> or \<^verbatim>\<open>--help\<close> prints the help and exits\<close>
  | FileNotFound string
    \<comment> \<open>\<^verbatim>\<open>open(path, 'r')\<close> on a path that cannot be read\<close>
  | AttributeError string
    \<comment> \<open>reading or deleting an attribute the namespace does not have\<close>
  | KeyError string
    \<comment> \<open>subscripting \<^verbatim>\<open>ACCEPTED_PARAMETERS\<close> with a key it does not have\<close>
  | ValidationError string pyval
    \<comment> \<open>a validator of \<^verbatim>\<open>penn_chime.validators\<close> rejecting \<open>value\<close> for \<open>key\<close>\<close>
  | UnexpectedParameter string
    \<comment> \<open>\<^verbatim>\<open>ValueError(f"Unexpected parameter {key}")\<close>\<close>
  | WrappedTypeError string pyval
    \<comment> \<open>\<^verbatim>\<open>ValueError\<close> raised by \<^verbatim>\<open>Parameters.__init__\<close> around a validator's \<^verbatim>\<open>TypeError\<close>\<close>
  | AssertionError
    \<comment> \<open>\<^verbatim>\<open>AssertionError('population or regions must be provided.')\<close>\<close>

definition bind :: "error + 'a \<Rightarrow> ('a \<Rightarrow> error + 'b) \<Rightarrow> error + 'b" where
  "bind m f = (case m of Inl e \<Rightarrow> Inl e | Inr x \<Rightarrow> f x)"

definition seq :: "error + unit \<Rightarrow> error + 'b \<Rightarrow> error + 'b" where
  "seq m k = (case m of Inl e \<Rightarrow> Inl e | Inr _ \<Rightarrow> k)"

section \<open>The builtin casts\<close>

text \<open>
  The casts of the two schemas are the builtins \<^verbatim>\<open>str\<close>, \<^verbatim>\<open>int\<close> and \<^verbatim>\<open>float\<close> and the
  module's \<^verbatim>\<open>cast_date\<close>. The model reads plain ASCII decimal literals: an optional sign
  and digits for \<^verbatim>\<open>int\<close>, with an optional fraction for \<^verbatim>\<open>float\<close>. Python accepts more
  (surrounding blanks, underscores between digits, exponents, \<^verbatim>\<open>inf\<close>, \<^verbatim>\<open>nan\<close>, digits
  outside ASCII); on such a string the model's cast raises.
\<close>

datatype cast = C_str | C_int | C_float | C_cast_date

definition is_digit :: "char \<Rightarrow> bool" where
  "is_digit c = (c \<in> set ''0123456789'')"

definition digit_val :: "char \<Rightarrow> nat" where
  "digit_val c = of_char c - 48"

definition digits_val :: "string \<Rightarrow> nat" where
  "digits_val s = foldl (\<lambda>n c. 10 * n + digit_val c) 0 s"

definition all_digits :: "string \<Rightarrow> bool" where
  "all_digits s = (s \<noteq> [] \<and> list_all is_digit s)"

definition strip_sign :: "string \<Rightarrow> bool \<times> string" where
  "strip_sign s =
     (case s of
        [] \<Rightarrow> (False, [])
      | c # cs \<Rightarrow> if c = CHR ''-'' then (True, cs)
                 else if c = CHR ''+'' then (False, cs)
                 else (False, s))"

definition int_py :: "string \<Rightarrow> error + int" where
  "int_py s =
     (let (neg, ds) = strip_sign s in
      if all_digits ds
      then Inr (if neg then - int (digits_val ds) else int (digits_val ds))
      else Inl (CastError ''int'' s))"

definition float_py :: "string \<Rightarrow> error + rat" where
  "float_py s =
     (let (neg, body) = strip_sign s;
          ip = takeWhile (\<lambda>c. c \<noteq> CHR ''.'') body;
          rest = dropWhile (\<lambda>c. c \<noteq> CHR ''.'') body;
          fp = (case rest of [] \<Rightarrow> [] | _ # r \<Rightarrow> r)
      in if list_all is_digit ip \<and> list_all is_digit fp \<and> (ip \<noteq> [] \<or> fp \<noteq> [])
         then let m = of_nat (digits_val ip) + of_nat (digits_val fp) / 10 ^ length fp
              in Inr (if neg then - m else m)
         else Inl (CastError ''float'' s))"

text \<open>
  \<^verbatim>\<open>cast_date\<close> is \<^verbatim>\<open>datetime.strptime(string, '%Y-%m-%d').date()\<close>: a year of four
  digits, a month and a day of one or two digits, which must name a day of the proleptic
  Gregorian calendar with a year of at least 1.
\<close>

definition is_leap :: "nat \<Rightarrow> bool" where
  "is_leap y = (y mod 4 = 0 \<and> (y mod 100 \<noteq> 0 \<or> y mod 400 = 0))"

definition days_in_month :: "nat \<Rightarrow> nat \<Rightarrow> nat" where
  "days_in_month y m =
     (if m = 2 then (if is_leap y then 29 else 28)
      else if m \<in> {4, 6, 9, 11} then 30 else 31)"

definition split_on :: "char \<Rightarrow> string \<Rightarrow> string \<times> string option" where
  "split_on c s =
     (takeWhile (\<lambda>x. x \<noteq> c) s,
      case dropWhile (\<lambda>x. x \<noteq> c) s of [] \<Rightarrow> None | _ # r \<Rightarrow> Some r)"

definition cast_date :: "string \<Rightarrow> error + date" where
  "cast_date string =
     (case split_on CHR ''-'' string of
        (ys, Some r1) \<Rightarrow>
          (case split_on CHR ''-'' r1 of
             (ms, Some ds) \<Rightarrow>
               (let y = digits_val ys; m = digits_val ms; d = digits_val ds in
                if all_digits ys \<and> length ys = 4 \<and> all_digits ms \<and> length ms \<le> 2
                   \<and> all_digits ds \<and> length ds \<le> 2
                   \<and> 1 \<le> y \<and> 1 \<le> m \<and> m \<le> 12 \<and> 1 \<le> d \<and> d \<le> days_in_month y m
                then Inr (date y m d)
                else Inl (CastError ''cast_date'' string))
           | (_, None) \<Rightarrow> Inl (CastError ''cast_date'' string))
      | (_, None) \<Rightarrow> Inl (CastError ''cast_date'' string))"

definition call_cast :: "cast \<Rightarrow> string \<Rightarrow> error + pyval" where
  "call_cast c string =
     (case c of
        C_str \<Rightarrow> Inr (PStr string)
      | C_int \<Rightarrow> bind (int_py string) (\<lambda>i. Inr (PInt i))
      | C_float \<Rightarrow> bind (float_py string) (\<lambda>x. Inr (PFloat x))
      | C_cast_date \<Rightarrow> bind (cast_date string) (\<lambda>d. Inr (PDate d)))"

section \<open>The flag-level validator\<close>

text \<open>
  The bounds \<^verbatim>\<open>min_value\<close> and \<^verbatim>\<open>max_value\<close> of \<^verbatim>\<open>cli_args\<close> are \<^verbatim>\<open>None\<close> or a numeric
  literal, so a bound is a \<open>pyval option\<close> whose value is a \<open>PInt\<close> or a \<open>PFloat\<close>.
  Python orders \<^verbatim>\<open>int\<close> and \<^verbatim>\<open>float\<close> by value; the ordering of a number with \<^verbatim>\<open>None\<close>, a
  string, a date or a tuple raises \<^verbatim>\<open>TypeError\<close>.
\<close>

definition num_of :: "pyval \<Rightarrow> rat option" where
  "num_of v = (case v of PInt i \<Rightarrow> Some (of_int i) | PFloat x \<Rightarrow> Some x | _ \<Rightarrow> None)"

definition py_less :: "pyval \<Rightarrow> pyval \<Rightarrow> error + bool" where
  "py_less a b =
     (case (num_of a, num_of b) of
        (Some x, Some y) \<Rightarrow> Inr (x < y)
      | _ \<Rightarrow> Inl TypeError)"

definition check_max :: "string \<Rightarrow> pyval option \<Rightarrow> pyval \<Rightarrow> error + pyval" where
  "check_max arg max_value v =
     (case max_value of
        None \<Rightarrow> Inr v
      | Some m \<Rightarrow>
          bind (py_less m v) (\<lambda>above. if above then Inl (MustBeLess arg m) else Inr v))"

definition check_min ::
  "string \<Rightarrow> pyval option \<Rightarrow> pyval option \<Rightarrow> pyval \<Rightarrow> error + pyval" where
  "check_min arg min_value max_value v =
     (case min_value of
        None \<Rightarrow> check_max arg max_value v
      | Some m \<Rightarrow>
          bind (py_less v m) (\<lambda>below.
            if below then Inl (MustBeGreater arg m) else check_max arg max_value v))"

definition validator ::
  "string \<Rightarrow> cast \<Rightarrow> pyval option \<Rightarrow> pyval option \<Rightarrow> bool \<Rightarrow> string \<Rightarrow> error + pyval" where
  "validator arg cast min_value max_value required string =
     (if string = [] \<and> cast \<noteq> C_str
      then (if required then Inl (IsRequired arg) else Inr PNone)
      else bind (call_cast cast string) (check_min arg min_value max_value))"

section \<open>The CLI schema and the argument parser\<close>

text \<open>
  \<^verbatim>\<open>cli_args()\<close>: the tuples \<open>(name, cast, min_value, max_value, help, required)\<close>, in the
  order of the source.
\<close>

type_synonym cli_entry = "string \<times> cast \<times> pyval option \<times> pyval option \<times> string \<times> bool"

definition cli_args :: "cli_entry list" where
  "cli_args =
     [(''parameters'', C_str, None, None, ''Parameters file.'', False),
      (''current_hospitalized'', C_int, Some (PInt 0), None,
         ''Currently hospitalized COVID-19 patients (>= 0)'', True),
      (''current_date'', C_cast_date, None, None, ''Current date (default is today)'', False),
      (''date_first_hospitalized'', C_cast_date, None, None,
         ''Date of first hospitalization'', False),
      (''doubling_time'', C_float, Some (PFloat 0), None,
         ''Doubling time before social distancing (days)'', True),
      (''hospitalized_days'', C_int, Some (PInt 0), None,
         ''Average hospital length of stay (in days)'', True),
      (''hospitalized_rate'', C_float, Some (PFloat (1 / 100000)), Some (PFloat 1),
         ''Hospitalized Rate: 0.00001 - 1.0'', True),
      (''icu_days'', C_int, Some (PInt 0), None, ''Average days in ICU'', True),
      (''icu_rate'', C_float, Some (PFloat 0), Some (PFloat 1), ''ICU rate: 0.0 - 1.0'', True),
      (''market_share'', C_float, Some (PFloat (1 / 100000)), Some (PFloat 1),
         ''Hospital market share (0.00001 - 1.0)'', True),
      (''infectious_days'', C_int, Some (PFloat 0), None, ''Infectious days'', True),
      (''mitigation_date'', C_cast_date, None, None,
         ''Mitigation date for social distancing.'', False),
      (''max_y_axis'', C_int, Some (PInt 0), None, ''Maximum y axis'', True),
      (''n-days'', C_int, Some (PInt 0), None, ''Number of days to project >= 0'', True),
      (''recovered'', C_int, Some (PInt 0), None, ''Initial recovered >= 0'', True),
      (''relative-contact-rate'', C_float, Some (PFloat 0), Some (PFloat 1),
         ''Social distancing reduction rate: 0.0 - 1.0'', True),
      (''population'', C_int, Some (PInt 1), None, ''Regional population >= 1'', True),
      (''ventilated_days'', C_int, Some (PInt 0), None, ''Average days on ventilator'', True),
      (''ventilated_rate'', C_float, Some (PFloat 0), Some (PFloat 1),
         ''Ventilated Rate: 0.0 - 1.0'', True)]"

definition to_cli :: "string \<Rightarrow> string" where
  "to_cli name = ''--'' @ map (\<lambda>c. if c = CHR ''_'' then CHR ''-'' else c) name"

text \<open>
  An \<^verbatim>\<open>argparse\<close> action as \<^verbatim>\<open>add_argument(arg, type=..., help=...)\<close> registers it: the
  option string, the attribute it stores to (the option string without its leading
  hyphens, every other hyphen an underscore), the \<^verbatim>\<open>type\<close> callable and the help. No
  action has a default or is required by the parser, and each takes one argument.
\<close>

record action =
  option_string :: string
  dest :: string
  type_fn :: "string \<Rightarrow> error + pyval"
  help_text :: string

definition dest_of :: "string \<Rightarrow> string" where
  "dest_of opt =
     map (\<lambda>c. if c = CHR ''-'' then CHR ''_'' else c) (dropWhile (\<lambda>c. c = CHR ''-'') opt)"

definition add_argument :: "cli_entry \<Rightarrow> action" where
  "add_argument e =
     (case e of (name, cast, min_value, max_value, h, required) \<Rightarrow>
        let arg = to_cli name in
        \<lparr>option_string = arg, dest = dest_of arg,
         type_fn = validator arg cast min_value max_value required, help_text = h\<rparr>)"

definition parser :: "action list" where
  "parser = map add_argument cli_args"

text \<open>
  The namespace of \<^verbatim>\<open>argparse\<close> and the keyword dictionary of \<^verbatim>\<open>Parameters\<close> are Python
  dictionaries: association lists in insertion order, updated in place.
\<close>

type_synonym namespace = "(string \<times> pyval) list"

definition getattr :: "namespace \<Rightarrow> string \<Rightarrow> error + pyval" where
  "getattr a k = (case map_of a k of None \<Rightarrow> Inl (AttributeError k) | Some v \<Rightarrow> Inr v)"

definition delattr :: "namespace \<Rightarrow> string \<Rightarrow> error + namespace" where
  "delattr a k =
     (case map_of a k of None \<Rightarrow> Inl (AttributeError k) | Some _ \<Rightarrow> Inr (AList.delete k a))"

text \<open>
  The model of \<^verbatim>\<open>ArgumentParser.parse_args\<close> covers the syntax of the spec's interface:
  a flag of the schema written out in full, followed by its value as the next token.
  A token where a flag is expected that is no flag of the schema is collected and
  reported at the end as unrecognized (so abbreviated flags and \<^verbatim>\<open>--flag=value\<close> are
  rejected by the model, where \<^verbatim>\<open>argparse\<close> would expand them). A value token that
  itself looks like an option (it starts with a hyphen, is longer than one character,
  is not a negative number and has no blank) is not taken as the argument. An exception
  of the \<^verbatim>\<open>type\<close> callable becomes the parser's own error, which names the flag and the
  string.
\<close>

definition is_negative_number :: "string \<Rightarrow> bool" where
  "is_negative_number s =
     (case s of
        [] \<Rightarrow> False
      | c # r \<Rightarrow>
          c = CHR ''-'' \<and>
          (all_digits r \<or>
           (case split_on CHR ''.'' r of
              (ip, Some fp) \<Rightarrow> list_all is_digit ip \<and> all_digits fp
            | (_, None) \<Rightarrow> False)))"

definition looks_like_option :: "string \<Rightarrow> bool" where
  "looks_like_option s =
     (case s of
        [] \<Rightarrow> False
      | c # r \<Rightarrow> c = CHR ''-'' \<and> r \<noteq> [] \<and> \<not> is_negative_number s \<and> CHR '' '' \<notin> set s)"

definition set_defaults :: "action list \<Rightarrow> namespace \<Rightarrow> namespace" where
  "set_defaults acts ns =
     foldl (\<lambda>n a. if map_of n (dest a) = None then n @ [(dest a, PNone)] else n) ns acts"

fun parse_optionals ::
  "action list \<Rightarrow> string list \<Rightarrow> namespace \<Rightarrow> string list \<Rightarrow> error + namespace \<times> string list"
where
  "parse_optionals acts [] ns extras = Inr (ns, extras)"
| "parse_optionals acts (t # ts) ns extras =
     (if t = ''-h'' \<or> t = ''--help'' then Inl HelpExit
      else
        case find (\<lambda>a. option_string a = t) acts of
          None \<Rightarrow> parse_optionals acts ts ns (extras @ [t])
        | Some a \<Rightarrow>
            (case ts of
               [] \<Rightarrow> Inl (ExpectedOneArgument t)
             | v # rest \<Rightarrow>
                 if looks_like_option v then Inl (ExpectedOneArgument t)
                 else
                   (case type_fn a v of
                      Inl e \<Rightarrow> Inl (ArgumentError t v)
                    | Inr value \<Rightarrow>
                        parse_optionals acts rest (AList.update (dest a) value ns) extras)))"

definition parse_args :: "action list \<Rightarrow> string list \<Rightarrow> namespace \<Rightarrow> error + namespace" where
  "parse_args acts args namespace =
     bind (parse_optionals acts args (set_defaults acts namespace) [])
       (\<lambda>(ns, extras). if extras \<noteq> [] then Inl (UnrecognizedArguments extras) else Inr ns)"

section \<open>The field validators\<close>

text \<open>
  The module imports its field validators from \<^verbatim>\<open>penn_chime/validators\<close>, whose source
  is not part of the files under study. Each is a callable taking \<open>key\<close> and \<open>value\<close>
  that returns silently or raises an error naming the key. They are modelled from the
  contracts of the specification's validator table.
\<close>

text \<open>Modelled from the spec: \<^verbatim>\<open>Positive\<close> (missing: \<^verbatim>\<open>penn_chime/validators\<close>),
  "value \<open>\<ge>\<close> 0; fails otherwise".\<close>

definition Positive :: "string \<Rightarrow> pyval \<Rightarrow> error + unit" where
  "Positive key value =
     (case num_of value of
        Some x \<Rightarrow> if 0 \<le> x then Inr () else Inl (ValidationError key value)
      | None \<Rightarrow> Inl (ValidationError key value))"

text \<open>Modelled from the spec: \<^verbatim>\<open>StrictlyPositive\<close> (missing: \<^verbatim>\<open>penn_chime/validators\<close>),
  "value > 0; fails otherwise".\<close>

definition StrictlyPositive :: "string \<Rightarrow> pyval \<Rightarrow> error + unit" where
  "StrictlyPositive key value =
     (case num_of value of
        Some x \<Rightarrow> if 0 < x then Inr () else Inl (ValidationError key value)
      | None \<Rightarrow> Inl (ValidationError key value))"

text \<open>Modelled from the spec: \<^verbatim>\<open>OptionalStrictlyPositive\<close> (missing:
  \<^verbatim>\<open>penn_chime/validators\<close>), "None accepted; else StrictlyPositive".\<close>

definition OptionalStrictlyPositive :: "string \<Rightarrow> pyval \<Rightarrow> error + unit" where
  "OptionalStrictlyPositive key value =
     (if value = PNone then Inr () else StrictlyPositive key value)"

text \<open>Modelled from the spec: \<^verbatim>\<open>Rate\<close> (missing: \<^verbatim>\<open>penn_chime/validators\<close>),
  "0 \<open>\<le>\<close> value \<open>\<le>\<close> 1; fails otherwise".\<close>

definition Rate :: "string \<Rightarrow> pyval \<Rightarrow> error + unit" where
  "Rate key value =
     (case num_of value of
        Some x \<Rightarrow> if 0 \<le> x \<and> x \<le> 1 then Inr () else Inl (ValidationError key value)
      | None \<Rightarrow> Inl (ValidationError key value))"

text \<open>Modelled from the spec: \<^verbatim>\<open>Date\<close> (missing: \<^verbatim>\<open>penn_chime/validators\<close>),
  "value is a valid calendar date object; fails otherwise". A \<^verbatim>\<open>datetime.date\<close> object
  is a calendar date by construction, so the check is that the value is one.\<close>

definition Date :: "string \<Rightarrow> pyval \<Rightarrow> error + unit" where
  "Date key value =
     (case value of PDate _ \<Rightarrow> Inr () | _ \<Rightarrow> Inl (ValidationError key value))"

text \<open>Modelled from the spec: \<^verbatim>\<open>OptionalDate\<close> (missing: \<^verbatim>\<open>penn_chime/validators\<close>),
  "None accepted; else Date".\<close>

definition OptionalDate :: "string \<Rightarrow> pyval \<Rightarrow> error + unit" where
  "OptionalDate key value = (if value = PNone then Inr () else Date key value)"

text \<open>Modelled from the spec: \<^verbatim>\<open>OptionalValue\<close> (missing: \<^verbatim>\<open>penn_chime/validators\<close>),
  "accepts any value including None (no constraint)".\<close>

definition OptionalValue :: "string \<Rightarrow> pyval \<Rightarrow> error + unit" where
  "OptionalValue key value = Inr ()"

text \<open>Modelled from the spec: \<^verbatim>\<open>ValDisposition\<close> (missing: \<^verbatim>\<open>penn_chime/validators\<close>),
  "accepts a Disposition-shaped value (delegates to Disposition's own validation)": the
  value is a \<^verbatim>\<open>Disposition\<close> whose days pass \<^verbatim>\<open>Positive\<close> and whose rate passes
  \<^verbatim>\<open>Rate\<close>, the two checks of \<^verbatim>\<open>Disposition.create\<close>.\<close>

definition ValDisposition :: "string \<Rightarrow> pyval \<Rightarrow> error + unit" where
  "ValDisposition key value =
     (case value of
        Disposition d r \<Rightarrow>
          if Positive ''days'' d = Inr () \<and> Rate ''rate'' r = Inr () then Inr ()
          else Inl (ValidationError key value)
      | _ \<Rightarrow> Inl (ValidationError key value))"

section \<open>Disposition and Regions\<close>

text \<open>\<^verbatim>\<open>Disposition.create(cls, *, days, rate)\<close>.\<close>

definition Disposition_create :: "pyval \<Rightarrow> pyval \<Rightarrow> error + pyval" where
  "Disposition_create days rate =
     seq (Positive ''days'' days)
    (seq (Rate ''rate'' rate)
         (Inr (Disposition days rate)))"

text \<open>
  \<^verbatim>\<open>Regions.__init__(self, **kwargs)\<close> stores each keyword as an attribute, adds the
  values up and stores the sum as \<^verbatim>\<open>population\<close>.
\<close>

definition Regions_init :: "(string \<times> int) list \<Rightarrow> pyval" where
  "Regions_init kwargs =
     PRegions (AList.update ''population'' (sum_list (map snd kwargs))
                 (foldl (\<lambda>self (key, value). AList.update key value self) [] kwargs))"

section \<open>The field schema and the Parameters object\<close>

text \<open>
  \<^verbatim>\<open>ACCEPTED_PARAMETERS\<close>: from a parameter name to its validator, its cast (\<^verbatim>\<open>None\<close> for
  four of them) and its help text (\<^verbatim>\<open>None\<close> for four of them), in the order of the source.
\<close>

type_synonym field_entry = "(string \<Rightarrow> pyval \<Rightarrow> error + unit) \<times> cast option \<times> string option"

definition ACCEPTED_PARAMETERS :: "(string \<times> field_entry) list" where
  "ACCEPTED_PARAMETERS =
     [(''current_hospitalized'',
         (Positive, Some C_int, Some ''Currently hospitalized COVID-19 patients (>= 0)'')),
      (''current_date'',
         (OptionalDate, Some C_cast_date, Some ''Date on which the forecast should be based'')),
      (''date_first_hospitalized'',
         (OptionalDate, Some C_cast_date, Some ''Date the first patient was hospitalized'')),
      (''doubling_time'',
         (OptionalStrictlyPositive, Some C_float,
          Some ''Doubling time before social distancing (days)'')),
      (''infectious_days'', (StrictlyPositive, Some C_int, Some ''Infectious days'')),
      (''mitigation_date'',
         (OptionalDate, Some C_cast_date,
          Some ''Date on which social distancing measures too effect'')),
      (''market_share'', (Rate, Some C_float, Some ''Hospital market share (0.00001 - 1.0)'')),
      (''max_y_axis'', (OptionalStrictlyPositive, Some C_int, None)),
      (''n_days'', (StrictlyPositive, Some C_int, Some ''Number of days to project >= 0'')),
      (''population'', (OptionalStrictlyPositive, Some C_int, Some ''Regional population >= 1'')),
      (''recovered'',
         (Positive, Some C_int,
          Some ''Number of patients already recovered (not yet implemented)'')),
      (''region'', (OptionalValue, None, Some ''No help available'')),
      (''relative_contact_rate'',
         (Rate, Some C_float, Some ''Social distancing reduction rate: 0.0 - 1.0'')),
      (''ventilated'', (ValDisposition, None, None)),
      (''hospitalized'', (ValDisposition, None, None)),
      (''icu'', (ValDisposition, None, None))]"

record Parameters =
  current_date :: pyval
  current_hospitalized :: pyval
  date_first_hospitalized :: pyval
  doubling_time :: pyval
  hospitalized :: pyval
  icu :: pyval
  infectious_days :: pyval
  market_share :: pyval
  max_y_axis :: pyval
  mitigation_date :: pyval
  n_days :: pyval
  population :: pyval
  region :: pyval
  relative_contact_rate :: pyval
  recovered :: pyval
  ventilated :: pyval
  labels :: "(string \<times> string) list"
  dispositions :: "(string \<times> pyval) list"

text \<open>
  The object as \<^verbatim>\<open>__init__\<close> first sets it up: every property \<^verbatim>\<open>None\<close>, the two lookup
  tables not yet there.
\<close>

definition properties_None :: Parameters where
  "properties_None =
     \<lparr>current_date = PNone, current_hospitalized = PNone, date_first_hospitalized = PNone,
      doubling_time = PNone, hospitalized = PNone, icu = PNone, infectious_days = PNone,
      market_share = PNone, max_y_axis = PNone, mitigation_date = PNone, n_days = PNone,
      population = PNone, region = PNone, relative_contact_rate = PNone, recovered = PNone,
      ventilated = PNone, labels = [], dispositions = []\<rparr>"

text \<open>
  \<^verbatim>\<open>setattr(self, key, value)\<close> for the keys of \<^verbatim>\<open>ACCEPTED_PARAMETERS\<close>, the only ones
  \<^verbatim>\<open>__init__\<close> reaches it with.
\<close>

definition setattr :: "Parameters \<Rightarrow> string \<Rightarrow> pyval \<Rightarrow> Parameters" where
  "setattr self key value =
     (if key = ''current_date'' then self\<lparr>current_date := value\<rparr>
      else if key = ''current_hospitalized'' then self\<lparr>current_hospitalized := value\<rparr>
      else if key = ''date_first_hospitalized'' then self\<lparr>date_first_hospitalized := value\<rparr>
      else if key = ''doubling_time'' then self\<lparr>doubling_time := value\<rparr>
      else if key = ''hospitalized'' then self\<lparr>hospitalized := value\<rparr>
      else if key = ''icu'' then self\<lparr>icu := value\<rparr>
      else if key = ''infectious_days'' then self\<lparr>infectious_days := value\<rparr>
      else if key = ''market_share'' then self\<lparr>market_share := value\<rparr>
      else if key = ''max_y_axis'' then self\<lparr>max_y_axis := value\<rparr>
      else if key = ''mitigation_date'' then self\<lparr>mitigation_date := value\<rparr>
      else if key = ''n_days'' then self\<lparr>n_days := value\<rparr>
      else if key = ''population'' then self\<lparr>population := value\<rparr>
      else if key = ''region'' then self\<lparr>region := value\<rparr>
      else if key = ''relative_contact_rate'' then self\<lparr>relative_contact_rate := value\<rparr>
      else if key = ''recovered'' then self\<lparr>recovered := value\<rparr>
      else if key = ''ventilated'' then self\<lparr>ventilated := value\<rparr>
      else self)"

text \<open>The first loop of \<^verbatim>\<open>__init__\<close>: every keyword must be a key of the schema.\<close>

fun check_keys :: "(string \<times> pyval) list \<Rightarrow> (string \<times> pyval) list \<Rightarrow> error + (string \<times> pyval) list"
where
  "check_keys [] passed = Inr passed"
| "check_keys ((key, value) # kwargs) passed =
     (if key \<notin> set (map fst ACCEPTED_PARAMETERS) then Inl (UnexpectedParameter key)
      else check_keys kwargs (AList.update key value passed))"

text \<open>
  The second loop: the validator of the key is run, a \<^verbatim>\<open>TypeError\<close> of it is raised again
  as a \<^verbatim>\<open>ValueError\<close>, and the value is stored.
\<close>

fun validate_and_set :: "(string \<times> pyval) list \<Rightarrow> Parameters \<Rightarrow> error + Parameters" where
  "validate_and_set [] self = Inr self"
| "validate_and_set ((key, value) # passed) self =
     (case map_of ACCEPTED_PARAMETERS key of
        None \<Rightarrow> Inl (KeyError key)
      | Some (validate, _, _) \<Rightarrow>
          (case validate key value of
             Inl TypeError \<Rightarrow> Inl (WrappedTypeError key value)
           | Inl e \<Rightarrow> Inl e
           | Inr _ \<Rightarrow> validate_and_set passed (setattr self key value)))"

text \<open>
  The rest of \<^verbatim>\<open>__init__\<close>, from the population/region check on. \<open>today\<close> is what
  \<^verbatim>\<open>date.today()\<close> returned when \<^verbatim>\<open>__init__\<close> began.
\<close>

definition finish_init :: "date \<Rightarrow> Parameters \<Rightarrow> error + Parameters" where
  "finish_init today self =
     (if region self = PNone \<and> population self = PNone then Inl AssertionError
      else
        let self = (if current_date self = PNone
                    then self\<lparr>current_date := PDate today\<rparr> else self);
            self = (if mitigation_date self = PNone
                    then self\<lparr>mitigation_date := PDate today\<rparr> else self)
        in
          seq (Date ''current_date'' (current_date self))
         (seq (Date ''mitigation_date'' (mitigation_date self))
              (Inr (self\<lparr>
                 labels :=
                   [(''hospitalized'', ''Hospitalized''), (''icu'', ''ICU''),
                    (''ventilated'', ''Ventilated''), (''day'', ''Day''), (''date'', ''Date''),
                    (''susceptible'', ''Susceptible''), (''infected'', ''Infected''),
                    (''recovered'', ''Recovered'')],
                 dispositions :=
                   [(''hospitalized'', hospitalized self), (''icu'', icu self),
                    (''ventilated'', ventilated self)]\<rparr>))))"

text \<open>\<^verbatim>\<open>Parameters.__init__(self, **kwargs)\<close>.\<close>

definition Parameters_init :: "date \<Rightarrow> (string \<times> pyval) list \<Rightarrow> error + Parameters" where
  "Parameters_init today kwargs =
     bind (check_keys kwargs []) (\<lambda>passed_and_default_parameters.
     bind (validate_and_set passed_and_default_parameters properties_None)
       (finish_init today))"

section \<open>Resolution: Parameters.create\<close>

text \<open>
  \<^verbatim>\<open>str.split()\<close> with no argument: the maximal runs of characters that are not
  whitespace (the ASCII whitespace of \<^verbatim>\<open>str.isspace\<close>: codes 9 to 13, 28 to 31 and 32).
\<close>

definition is_space :: "char \<Rightarrow> bool" where
  "is_space c = ((of_char c :: nat) \<in> {9, 10, 11, 12, 13, 28, 29, 30, 31, 32})"

fun split_from :: "string \<Rightarrow> string \<Rightarrow> string list" where
  "split_from cur [] = (if cur = [] then [] else [cur])"
| "split_from cur (c # cs) =
     (if is_space c then (if cur = [] then split_from [] cs else cur # split_from [] cs)
      else split_from (cur @ [c]) cs)"

definition str_split :: "string \<Rightarrow> string list" where
  "str_split s = split_from [] s"

text \<open>
  The first half of \<^verbatim>\<open>Parameters.create(cls, env, argv)\<close>, up to
  \<^verbatim>\<open>del a.parameters\<close>: the argument vector is parsed, the path of the parameters file
  is taken from the namespace or else from the environment, the tokens of the file are
  parsed into the same namespace, and the path is removed. \<open>files\<close> maps a path that
  \<^verbatim>\<open>open\<close> can read to the contents of the file.
\<close>

definition create_namespace ::
  "(string \<rightharpoonup> string) \<Rightarrow> (string \<rightharpoonup> string) \<Rightarrow> string list \<Rightarrow> error + namespace" where
  "create_namespace files env argv =
     bind (parse_args parser argv []) (\<lambda>a.
     bind (getattr a ''parameters'') (\<lambda>p.
     let a = (if p = PNone
              then AList.update ''parameters''
                     (case env ''PARAMETERS'' of None \<Rightarrow> PNone | Some path \<Rightarrow> PStr path) a
              else a)
     in
     bind (getattr a ''parameters'') (\<lambda>p.
     bind (case p of
             PNone \<Rightarrow> Inr a
           | PStr path \<Rightarrow>
               (case files path of
                  None \<Rightarrow> Inl (FileNotFound path)
                | Some contents \<Rightarrow> parse_args parser (str_split contents) a)
           | _ \<Rightarrow> Inl TypeError) (\<lambda>a.
     delattr a ''parameters''))))"

text \<open>
  The second half, in four steps. First the six day and rate attributes of the namespace
  are validated, in the order of the source.
\<close>

definition validate_days_and_rates :: "namespace \<Rightarrow> error + unit" where
  "validate_days_and_rates a =
     bind (getattr a ''hospitalized_days'') (\<lambda>value.
     seq (Positive ''hospitalized_days'' value)
    (bind (getattr a ''icu_days'') (\<lambda>value.
     seq (Positive ''icu_days'' value)
    (bind (getattr a ''ventilated_days'') (\<lambda>value.
     seq (Positive ''ventilated_days'' value)
    (bind (getattr a ''hospitalized_rate'') (\<lambda>value.
     seq (Rate ''hospitalized_rate'' value)
    (bind (getattr a ''icu_rate'') (\<lambda>value.
     seq (Rate ''icu_rate'' value)
    (bind (getattr a ''ventilated_rate'') (\<lambda>value.
     Rate ''ventilated_rate'' value)))))))))))"

text \<open>Then the three dispositions are created from the attributes, read again.\<close>

definition create_disposition :: "namespace \<Rightarrow> string \<Rightarrow> string \<Rightarrow> error + pyval" where
  "create_disposition a days_key rate_key =
     bind (getattr a days_key) (\<lambda>days.
     bind (getattr a rate_key) (\<lambda>rate.
     Disposition_create days rate))"

text \<open>The six attributes are deleted.\<close>

definition delete_days_and_rates :: "namespace \<Rightarrow> error + namespace" where
  "delete_days_and_rates a =
     bind (delattr a ''hospitalized_days'') (\<lambda>a.
     bind (delattr a ''hospitalized_rate'') (\<lambda>a.
     bind (delattr a ''icu_days'') (\<lambda>a.
     bind (delattr a ''icu_rate'') (\<lambda>a.
     bind (delattr a ''ventilated_days'') (\<lambda>a.
     delattr a ''ventilated_rate'')))))"

text \<open>
  And \<^verbatim>\<open>Parameters\<close> is constructed from the dispositions and what is left of the
  namespace.
\<close>

definition create_parameters :: "date \<Rightarrow> namespace \<Rightarrow> error + Parameters" where
  "create_parameters today a =
     seq (validate_days_and_rates a)
    (bind (create_disposition a ''hospitalized_days'' ''hospitalized_rate'') (\<lambda>h.
     bind (create_disposition a ''icu_days'' ''icu_rate'') (\<lambda>i.
     bind (create_disposition a ''ventilated_days'' ''ventilated_rate'') (\<lambda>v.
     bind (delete_days_and_rates a) (\<lambda>a.
     Parameters_init today
       ([(''hospitalized'', h), (''icu'', i), (''ventilated'', v)] @ a))))))"

definition create ::
  "date \<Rightarrow> (string \<rightharpoonup> string) \<Rightarrow> (string \<rightharpoonup> string) \<Rightarrow> string list \<Rightarrow> error + Parameters"
where
  "create today files env argv =
     bind (create_namespace files env argv) (create_parameters today)"

section \<open>Vocabulary of the properties\<close>

text \<open>
  \<open>attribute self key\<close> reads a property of the object by its name, as Python's
  \<^verbatim>\<open>getattr(self, key)\<close> does for the sixteen properties \<^verbatim>\<open>__init__\<close> declares.
\<close>

definition attribute :: "Parameters \<Rightarrow> string \<Rightarrow> pyval" where
  "attribute self key =
     (if key = ''current_date'' then current_date self
      else if key = ''current_hospitalized'' then current_hospitalized self
      else if key = ''date_first_hospitalized'' then date_first_hospitalized self
      else if key = ''doubling_time'' then doubling_time self
      else if key = ''hospitalized'' then hospitalized self
      else if key = ''icu'' then icu self
      else if key = ''infectious_days'' then infectious_days self
      else if key = ''market_share'' then market_share self
      else if key = ''max_y_axis'' then max_y_axis self
      else if key = ''mitigation_date'' then mitigation_date self
      else if key = ''n_days'' then n_days self
      else if key = ''population'' then population self
      else if key = ''region'' then region self
      else if key = ''relative_contact_rate'' then relative_contact_rate self
      else if key = ''recovered'' then recovered self
      else if key = ''ventilated'' then ventilated self
      else PNone)"

text \<open>
  A cast value is below a declared minimum, or above a declared maximum, when the bound
  exists and the numbers compare so.
\<close>

definition below_min :: "pyval \<Rightarrow> pyval option \<Rightarrow> bool" where
  "below_min v min_value =
     (case min_value of
        None \<Rightarrow> False
      | Some m \<Rightarrow> (case (num_of v, num_of m) of (Some x, Some y) \<Rightarrow> x < y | _ \<Rightarrow> False))"

definition above_max :: "pyval \<Rightarrow> pyval option \<Rightarrow> bool" where
  "above_max v max_value =
     (case max_value of
        None \<Rightarrow> False
      | Some m \<Rightarrow> (case (num_of v, num_of m) of (Some x, Some y) \<Rightarrow> y < x | _ \<Rightarrow> False))"

definition bound :: "pyval option \<Rightarrow> pyval" where
  "bound b = (case b of None \<Rightarrow> PNone | Some m \<Rightarrow> m)"

text \<open>
  A keyword dictionary supplies a key when it maps it to a value other than \<^verbatim>\<open>None\<close>;
  the key is unset when it is missing or mapped to \<^verbatim>\<open>None\<close>.
\<close>

definition supplied :: "(string \<times> pyval) list \<Rightarrow> string \<Rightarrow> bool" where
  "supplied kwargs k = (case map_of kwargs k of None \<Rightarrow> False | Some v \<Rightarrow> v \<noteq> PNone)"

definition unset :: "(string \<times> pyval) list \<Rightarrow> string \<Rightarrow> bool" where
  "unset kwargs k = (case map_of kwargs k of None \<Rightarrow> True | Some v \<Rightarrow> v = PNone)"

text \<open>Concrete inputs.\<close>

definition kwargs_two_unknown :: "(string \<times> pyval) list" where
  "kwargs_two_unknown = [(''foo'', PInt 1), (''bar'', PInt 2)]"

definition kwargs_population :: "(string \<times> pyval) list" where
  "kwargs_population =
     [(''population'', PInt 1000),
      (''hospitalized'', Disposition (PInt 7) (PFloat (25 / 1000)))]"

text \<open>
  What a disposition's \<^verbatim>\<open>days\<close> and \<^verbatim>\<open>rate\<close> attributes read, and the value the final
  object carries for an attribute of the argument namespace: a day or rate count is
  carried inside its disposition, every other attribute under its own name.
\<close>

definition days_of :: "pyval \<Rightarrow> pyval" where
  "days_of v = (case v of Disposition d r \<Rightarrow> d | _ \<Rightarrow> PNone)"

definition rate_of :: "pyval \<Rightarrow> pyval" where
  "rate_of v = (case v of Disposition d r \<Rightarrow> r | _ \<Rightarrow> PNone)"

definition carried :: "Parameters \<Rightarrow> string \<Rightarrow> pyval" where
  "carried p d =
     (if d = ''hospitalized_days'' then days_of (hospitalized p)
      else if d = ''hospitalized_rate'' then rate_of (hospitalized p)
      else if d = ''icu_days'' then days_of (icu p)
      else if d = ''icu_rate'' then rate_of (icu p)
      else if d = ''ventilated_days'' then days_of (ventilated p)
      else if d = ''ventilated_rate'' then rate_of (ventilated p)
      else attribute p d)"

text \<open>
  \<^verbatim>\<open>__init__\<close> replaces a \<^verbatim>\<open>current_date\<close> or \<^verbatim>\<open>mitigation_date\<close> of \<^verbatim>\<open>None\<close> by today's date
  and leaves every other value as it is.
\<close>

definition defaulted :: "date \<Rightarrow> string \<Rightarrow> pyval \<Rightarrow> pyval" where
  "defaulted today d v =
     (if v = PNone \<and> (d = ''current_date'' \<or> d = ''mitigation_date'') then PDate today else v)"

text \<open>
  The attributes of the namespace once \<^verbatim>\<open>parameters\<close> is deleted, in the order of
  \<^verbatim>\<open>cli_args\<close>, and those of the required entries other than \<^verbatim>\<open>doubling_time\<close> and
  \<^verbatim>\<open>max_y_axis\<close>.
\<close>

definition namespace_keys :: "string list" where
  "namespace_keys =
     [''current_hospitalized'', ''current_date'',
      ''date_first_hospitalized'', ''doubling_time'', ''hospitalized_days'',
      ''hospitalized_rate'', ''icu_days'', ''icu_rate'', ''market_share'',
      ''infectious_days'', ''mitigation_date'', ''max_y_axis'', ''n_days'',
      ''recovered'', ''relative_contact_rate'', ''population'',
      ''ventilated_days'', ''ventilated_rate'']"


text \<open>
  A list of actions is well formed when no two share an option string or a destination
  and every option string looks like an option.
\<close>

definition wf_actions :: "action list \<Rightarrow> bool" where
  "wf_actions acts =
     (distinct (map option_string acts) \<and> distinct (map dest acts) \<and>
      list_all looks_like_option (map option_string acts))"

text \<open>
  More concrete inputs: the argument vector of the round trip, the same without one flag,
  keyword dictionaries, a parameters file, and the values they resolve to.
\<close>

definition argv_round_trip :: "string list" where
 "argv_round_trip = [''--population'', ''1000'', ''--market-share'', ''0.15'', ''--relative-contact-rate'', ''0.3'',
   ''--doubling-time'', ''4'', ''--infectious-days'', ''14'', ''--hospitalized-days'', ''7'',
   ''--hospitalized-rate'', ''0.025'', ''--icu-days'', ''9'', ''--icu-rate'', ''0.0075'',
   ''--ventilated-days'', ''10'', ''--ventilated-rate'', ''0.005'', ''--current-hospitalized'', ''20'',
   ''--n-days'', ''60'', ''--max-y-axis'', ''500'', ''--recovered'', ''0'']"




definition namespace_cli :: namespace where
  "namespace_cli =
     [(''parameters'', PNone), (''current_hospitalized'', PInt 20), (''current_date'', PNone),
      (''date_first_hospitalized'', PNone), (''doubling_time'', PFloat 4),
      (''hospitalized_days'', PInt 7), (''hospitalized_rate'', PFloat (25 / 1000)),
      (''icu_days'', PInt 9), (''icu_rate'', PFloat (75 / 10000)),
      (''market_share'', PFloat (15 / 100)), (''infectious_days'', PInt 14),
      (''mitigation_date'', PNone), (''max_y_axis'', PInt 500), (''n_days'', PInt 60),
      (''recovered'', PInt 0), (''relative_contact_rate'', PFloat (3 / 10)),
      (''population'', PInt 1000), (''ventilated_days'', PInt 10),
      (''ventilated_rate'', PFloat (5 / 1000))]"

definition contents_override :: string where
  "contents_override = ''--population 2000'' @ [CHR 0x0A] @ ''--icu-days 3'' @ [CHR 0x0A]"

definition files_override :: "string \<rightharpoonup> string" where
  "files_override = [''chime.cfg'' \<mapsto> contents_override]"

definition env_override :: "string \<rightharpoonup> string" where
  "env_override = [''PARAMETERS'' \<mapsto> ''chime.cfg'']"

definition namespace_file :: namespace where
  "namespace_file =
     [(''parameters'', PNone), (''current_hospitalized'', PNone), (''current_date'', PNone),
      (''date_first_hospitalized'', PNone), (''doubling_time'', PNone),
      (''hospitalized_days'', PNone), (''hospitalized_rate'', PNone),
      (''icu_days'', PInt 3), (''icu_rate'', PNone),
      (''market_share'', PNone), (''infectious_days'', PNone),
      (''mitigation_date'', PNone), (''max_y_axis'', PNone), (''n_days'', PNone),
      (''recovered'', PNone), (''relative_contact_rate'', PNone),
      (''population'', PInt 2000), (''ventilated_days'', PNone),
      (''ventilated_rate'', PNone)]"

definition labels_table :: "(string \<times> string) list" where
  "labels_table =
     [(''hospitalized'', ''Hospitalized''), (''icu'', ''ICU''),
      (''ventilated'', ''Ventilated''), (''day'', ''Day''),
      (''date'', ''Date''), (''susceptible'', ''Susceptible''),
      (''infected'', ''Infected''), (''recovered'', ''Recovered'')]"

definition params_override :: "date \<Rightarrow> Parameters" where
  "params_override today =
     \<lparr>current_date = PDate today, current_hospitalized = PInt 20,
      date_first_hospitalized = PNone, doubling_time = PFloat 4,
      hospitalized = Disposition (PInt 7) (PFloat (25 / 1000)),
      icu = Disposition (PInt 3) (PFloat (75 / 10000)),
      infectious_days = PInt 14, market_share = PFloat (15 / 100),
      max_y_axis = PInt 500, mitigation_date = PDate today,
      n_days = PInt 60, population = PInt 2000, region = PNone,
      relative_contact_rate = PFloat (3 / 10), recovered = PInt 0,
      ventilated = Disposition (PInt 10) (PFloat (5 / 1000)),
      labels = labels_table,
      dispositions =
        [(''hospitalized'', Disposition (PInt 7) (PFloat (25 / 1000))),
         (''icu'', Disposition (PInt 3) (PFloat (75 / 10000))),
         (''ventilated'', Disposition (PInt 10) (PFloat (5 / 1000)))]\<rparr>"

definition kwargs_both :: "(string \<times> pyval) list" where
  "kwargs_both = [(''population'', PInt 1000), (''region'', Regions_init [(''north'', 600), (''south'', 400)])]"

definition kwargs_neither :: "(string \<times> pyval) list" where
  "kwargs_neither = [(''hospitalized'', Disposition (PInt 7) (PFloat (25 / 1000)))]"

definition kwargs_unknown :: "(string \<times> pyval) list" where
  "kwargs_unknown = [(''population'', PInt 1000), (''foo'', PInt 1)]"

definition params_population :: "date \<Rightarrow> Parameters" where
  "params_population today =
     \<lparr>current_date = PDate today, current_hospitalized = PNone,
      date_first_hospitalized = PNone, doubling_time = PNone,
      hospitalized = Disposition (PInt 7) (PFloat (25 / 1000)), icu = PNone,
      infectious_days = PNone, market_share = PNone, max_y_axis = PNone,
      mitigation_date = PDate today, n_days = PNone,
      population = PInt 1000, region = PNone,
      relative_contact_rate = PNone, recovered = PNone, ventilated = PNone,
      labels = labels_table,
      dispositions =
        [(''hospitalized'', Disposition (PInt 7) (PFloat (25 / 1000))),
         (''icu'', PNone), (''ventilated'', PNone)]\<rparr>"

section \<open>Sequencing of results\<close>

lemma bind_Inr_iff: "bind m f = Inr y \<longleftrightarrow> (\<exists>x. m = Inr x \<and> f x = Inr y)"
  by (cases m) (simp_all add: bind_def)

lemma seq_Inr_iff: "seq m k = Inr y \<longleftrightarrow> (m = Inr () \<and> k = Inr y)"
  by (cases m) (simp_all add: seq_def)

section \<open>Disposition.create\<close>

lemma Positive_int:
  "Positive key (PInt d) = (if 0 \<le> d then Inr () else Inl (ValidationError key (PInt d)))"
  by (simp add: Positive_def num_of_def)

lemma Rate_float:
  "Rate key (PFloat r) =
     (if 0 \<le> r \<and> r \<le> 1 then Inr () else Inl (ValidationError key (PFloat r)))"
  by (simp add: Rate_def num_of_def)

text \<open>
  C5, as stated, at days \<open>-1\<close> and rate \<open>2\<close>: the rate is outside \<open>[0, 1]\<close>, yet the error
  cites \<open>days\<close> and not \<open>rate\<close>, because the days are checked first.
\<close>

theorem Disposition_create_days_checked_first:
  "Disposition_create (PInt (- 1)) (PFloat 2) = Inl (ValidationError ''days'' (PInt (- 1))) \<and>
   Disposition_create (PInt (- 1)) (PFloat 2) \<noteq> Inl (ValidationError ''rate'' (PFloat 2)) \<and>
   (1 :: rat) < 2"
  by (simp add: Disposition_create_def Positive_int seq_def)

text \<open>
  C5 (amended): \<^verbatim>\<open>Disposition.create(days=d, rate=r)\<close> succeeds exactly when \<open>d \<ge> 0\<close> and
  \<open>0 \<le> r \<le> 1\<close>, and then returns the object whose days and rate are the inputs; for
  every \<open>d < 0\<close> it fails with a validation error citing \<open>days\<close>; for every \<open>r\<close> outside
  \<open>[0, 1]\<close> with \<open>d \<ge> 0\<close> it fails with a validation error citing \<open>rate\<close>.
\<close>

theorem Disposition_create_cases:
  "((\<exists>x. Disposition_create (PInt d) (PFloat r) = Inr x) \<longleftrightarrow> 0 \<le> d \<and> 0 \<le> r \<and> r \<le> 1) \<and>
   (\<forall>x. Disposition_create (PInt d) (PFloat r) = Inr x \<longrightarrow>
        x = Disposition (PInt d) (PFloat r)) \<and>
   (d < 0 \<longrightarrow>
      Disposition_create (PInt d) (PFloat r) = Inl (ValidationError ''days'' (PInt d))) \<and>
   (0 \<le> d \<and> (r < 0 \<or> 1 < r) \<longrightarrow>
      Disposition_create (PInt d) (PFloat r) = Inl (ValidationError ''rate'' (PFloat r)))"
  by (auto simp add: Disposition_create_def Positive_int Rate_float seq_def)

theorem Disposition_create_cases_witness:
  "Disposition_create (PInt 7) (PFloat (25 / 1000)) = Inr (Disposition (PInt 7) (PFloat (25 / 1000))) \<and>
   Disposition_create (PInt (- 3)) (PFloat (1 / 2)) = Inl (ValidationError ''days'' (PInt (- 3))) \<and>
   Disposition_create (PInt 7) (PFloat (3 / 2)) = Inl (ValidationError ''rate'' (PFloat (3 / 2)))"
proof -
  have "\<exists>x. Disposition_create (PInt 7) (PFloat (25 / 1000)) = Inr x"
    using Disposition_create_cases [of 7 "25 / 1000"] by simp
  then have 1: "Disposition_create (PInt 7) (PFloat (25 / 1000)) =
                Inr (Disposition (PInt 7) (PFloat (25 / 1000)))"
    using Disposition_create_cases [of 7 "25 / 1000"] by blast
  have 2: "Disposition_create (PInt (- 3)) (PFloat (1 / 2)) =
           Inl (ValidationError ''days'' (PInt (- 3)))"
    using Disposition_create_cases [of "- 3" "1 / 2"] by simp
  have 3: "Disposition_create (PInt 7) (PFloat (3 / 2)) =
           Inl (ValidationError ''rate'' (PFloat (3 / 2)))"
    using Disposition_create_cases [of 7 "3 / 2"] by simp
  show ?thesis using 1 2 3 by blast
qed

section \<open>The field schema\<close>

lemma accepted_keys: "map fst ACCEPTED_PARAMETERS = [''current_hospitalized'', ''current_date'', ''date_first_hospitalized'',
  ''doubling_time'', ''infectious_days'', ''mitigation_date'', ''market_share'', ''max_y_axis'', ''n_days'', ''population'',
  ''recovered'', ''region'', ''relative_contact_rate'', ''ventilated'', ''hospitalized'', ''icu'']"
  by (simp add: ACCEPTED_PARAMETERS_def)

lemma accepted_distinct: "distinct (map fst ACCEPTED_PARAMETERS)"
  unfolding accepted_keys by simp

lemma accepted_card: "card (set (map fst ACCEPTED_PARAMETERS)) = 16"
  using distinct_card[OF accepted_distinct] by (simp add: ACCEPTED_PARAMETERS_def)

section \<open>Parameters.__init__\<close>

lemma check_keys_Inl:
  "check_keys kwargs passed = Inl e \<Longrightarrow>
     \<exists>k. e = UnexpectedParameter k \<and> find (\<lambda>k. k \<notin> set (map fst ACCEPTED_PARAMETERS)) (map fst kwargs) = Some k"
  by (induction kwargs passed rule: check_keys.induct) (auto split: if_splits)

lemma check_keys_Inr:
  "check_keys kwargs passed = Inr r \<Longrightarrow> set (map fst kwargs) \<subseteq> set (map fst ACCEPTED_PARAMETERS)"
  by (induction kwargs passed rule: check_keys.induct) (auto split: if_splits)

lemma check_keys_unexpected:
  "find (\<lambda>k. k \<notin> set (map fst ACCEPTED_PARAMETERS)) (map fst kwargs) = Some k \<Longrightarrow> check_keys kwargs passed = Inl (UnexpectedParameter k)"
  by (induction kwargs passed rule: check_keys.induct) (auto split: if_splits)

lemma check_keys_distinct:
  "check_keys kwargs passed = Inr r \<Longrightarrow> distinct (map fst kwargs) \<Longrightarrow> set (map fst kwargs) \<inter> set (map fst passed) = {} \<Longrightarrow> r = passed @ kwargs"
proof (induction kwargs passed rule: check_keys.induct)
  case (1 passed)
  then show ?case by simp
next
  case (2 key "value" kwargs passed)
  from "2.prems" have acc: "key \<in> set (map fst ACCEPTED_PARAMETERS)" 
    and rec: "check_keys kwargs (AList.update key value passed) = Inr r"
    by (auto split: if_splits)
  from "2.prems" have fresh: "key \<notin> fst ` set passed" by auto
  have upd: "AList.update key value passed = passed @ [(key, value)]"
    using fresh by (induction passed) auto
  have "r = AList.update key value passed @ kwargs"
    using "2.IH" acc rec "2.prems"(2,3) by (auto simp: upd)
  then show ?case by (simp add: upd)
qed


lemma setattr_keys:
  "setattr self ''current_date'' v = self\<lparr>current_date := v\<rparr>"
  "setattr self ''current_hospitalized'' v = self\<lparr>current_hospitalized := v\<rparr>"
  "setattr self ''date_first_hospitalized'' v = self\<lparr>date_first_hospitalized := v\<rparr>"
  "setattr self ''doubling_time'' v = self\<lparr>doubling_time := v\<rparr>"
  "setattr self ''hospitalized'' v = self\<lparr>hospitalized := v\<rparr>"
  "setattr self ''icu'' v = self\<lparr>icu := v\<rparr>"
  "setattr self ''infectious_days'' v = self\<lparr>infectious_days := v\<rparr>"
  "setattr self ''market_share'' v = self\<lparr>market_share := v\<rparr>"
  "setattr self ''max_y_axis'' v = self\<lparr>max_y_axis := v\<rparr>"
  "setattr self ''mitigation_date'' v = self\<lparr>mitigation_date := v\<rparr>"
  "setattr self ''n_days'' v = self\<lparr>n_days := v\<rparr>"
  "setattr self ''population'' v = self\<lparr>population := v\<rparr>"
  "setattr self ''region'' v = self\<lparr>region := v\<rparr>"
  "setattr self ''relative_contact_rate'' v = self\<lparr>relative_contact_rate := v\<rparr>"
  "setattr self ''recovered'' v = self\<lparr>recovered := v\<rparr>"
  "setattr self ''ventilated'' v = self\<lparr>ventilated := v\<rparr>"
  by (simp_all add: setattr_def)

lemma attribute_setattr:
  "k \<in> set (map fst ACCEPTED_PARAMETERS) \<Longrightarrow>
   attribute (setattr self k v) k' = (if k' = k then v else attribute self k')"
  unfolding accepted_keys set_simps insert_iff empty_iff
  apply (elim disjE FalseE)
  apply (simp_all only: setattr_keys)
  apply (simp_all add: attribute_def)
  done

lemma attribute_None: "attribute properties_None k = PNone"
  by (simp add: attribute_def properties_None_def)

lemma validator_errors:
  "map_of ACCEPTED_PARAMETERS k = Some (f, c, h) \<Longrightarrow> f key v = Inl e \<Longrightarrow> e = ValidationError key v"
  by (auto simp add: ACCEPTED_PARAMETERS_def Positive_def StrictlyPositive_def OptionalStrictlyPositive_def
       Rate_def Date_def OptionalDate_def OptionalValue_def ValDisposition_def
      split: if_splits option.splits pyval.splits)


lemma validate_and_set_attribute:
  "validate_and_set passed self = Inr self' \<Longrightarrow> distinct (map fst passed) \<Longrightarrow>
     attribute self' k = (case map_of passed k of Some v \<Rightarrow> v | None \<Rightarrow> attribute self k)"
proof (induction passed self rule: validate_and_set.induct)
  case (1 self)
  then show ?case by simp
next
  case (2 key "value" passed self)
  from "2.prems"(1) obtain f c h where
    acc: "map_of ACCEPTED_PARAMETERS key = Some (f, c, h)" and ok: "f key value = Inr ()"
    and rec: "validate_and_set passed (setattr self key value) = Inr self'"
    by (auto split: option.splits sum.splits error.splits)
  have key: "key \<in> set (map fst ACCEPTED_PARAMETERS)"
    using acc by (metis map_of_eq_None_iff option.distinct(1) set_map)
  have notin: "map_of passed key = None"
    using "2.prems"(2) by (simp add: map_of_eq_None_iff)
  have "attribute self' k =
        (case map_of passed k of Some v \<Rightarrow> v | None \<Rightarrow> attribute (setattr self key value) k)"
    using "2.IH"[OF acc refl refl ok rec] "2.prems"(2) by simp
  then show ?case using notin by (auto simp add: attribute_setattr[OF key] split: option.splits)
qed

lemma validate_and_set_Inl:
  "validate_and_set passed self = Inl e \<Longrightarrow> set (map fst passed) \<subseteq> set (map fst ACCEPTED_PARAMETERS) \<Longrightarrow>
     \<exists>k v. (k, v) \<in> set passed \<and> e = ValidationError k v"
proof (induction passed self rule: validate_and_set.induct)
  case (1 self)
  then show ?case by simp
next
  case (2 key "value" passed self)
  from "2.prems"(2) obtain fe where acc: "map_of ACCEPTED_PARAMETERS key = Some fe"
    by (metis list.set_intros(1) list.simps(9) fst_conv map_of_eq_None_iff not_None_eq set_map subsetD)
  obtain f c h where fe: "fe = (f, c, h)" by (cases fe)
  show ?case
  proof (cases "f key value")
    case (Inl e')
    then have "e' = ValidationError key value" using validator_errors acc fe by blast
    then show ?thesis using "2.prems"(1) acc fe Inl by auto
  next
    case (Inr u)
    then have "validate_and_set passed (setattr self key value) = Inl e"
      using "2.prems"(1) acc fe by simp
    then show ?thesis using "2.IH"[OF acc[unfolded fe] refl refl Inr] "2.prems"(2) by auto
  qed
qed

lemma finish_init_Inr:
  "finish_init today self = Inr p \<Longrightarrow>
     (region self \<noteq> PNone \<or> population self \<noteq> PNone) \<and>
     p = self\<lparr>current_date := (if current_date self = PNone then PDate today else current_date self),
             mitigation_date := (if mitigation_date self = PNone then PDate today else mitigation_date self),
             labels := [(''hospitalized'', ''Hospitalized''), (''icu'', ''ICU''),
                    (''ventilated'', ''Ventilated''), (''day'', ''Day''), (''date'', ''Date''),
                    (''susceptible'', ''Susceptible''), (''infected'', ''Infected''),
                    (''recovered'', ''Recovered'')],
             dispositions := [(''hospitalized'', hospitalized self), (''icu'', icu self),
                    (''ventilated'', ventilated self)]\<rparr> \<and>
     Date ''current_date'' (current_date p) = Inr () \<and>
     Date ''mitigation_date'' (mitigation_date p) = Inr ()"
  by (auto simp add: finish_init_def Let_def seq_Inr_iff split: if_splits)

lemma Parameters_init_Inr:
  assumes "Parameters_init today kwargs = Inr p"
  shows "\<exists>passed self. check_keys kwargs [] = Inr passed \<and>
           validate_and_set passed properties_None = Inr self \<and> finish_init today self = Inr p"
  using assms by (auto simp add: Parameters_init_def bind_Inr_iff)

text \<open>
  C10: after every successful construction the \<^verbatim>\<open>dispositions\<close> table maps
  \<^verbatim>\<open>"hospitalized"\<close>, \<^verbatim>\<open>"icu"\<close> and \<^verbatim>\<open>"ventilated"\<close> to the values of the object's
  attributes of these names, and has no other key.
\<close>

theorem Parameters_init_dispositions_table:
  "Parameters_init today kwargs = Inr p \<Longrightarrow>
     dispositions p =
       [(''hospitalized'', hospitalized p), (''icu'', icu p), (''ventilated'', ventilated p)] \<and>
     map_of (dispositions p) ''hospitalized'' = Some (hospitalized p) \<and>
     map_of (dispositions p) ''icu'' = Some (icu p) \<and>
     map_of (dispositions p) ''ventilated'' = Some (ventilated p)"
  by (auto dest!: Parameters_init_Inr finish_init_Inr)

text \<open>
  C8, as stated, at the keywords \<^verbatim>\<open>foo=1, bar=2\<close>: \<open>bar\<close> is a keyword of the set and is
  not in the schema, yet the error names \<open>foo\<close>, the first unexpected keyword.
\<close>

theorem Parameters_init_unexpected_names_first:
  "Parameters_init (date 2020 3 28) kwargs_two_unknown = Inl (UnexpectedParameter ''foo'') \<and>
   Parameters_init (date 2020 3 28) kwargs_two_unknown \<noteq> Inl (UnexpectedParameter ''bar'') \<and>
   ''bar'' \<in> set (map fst kwargs_two_unknown) \<and>
   ''bar'' \<notin> set (map fst ACCEPTED_PARAMETERS)"
  by (simp add: kwargs_two_unknown_def Parameters_init_def bind_def accepted_keys)

text \<open>
  C8 (amended): if a keyword of the set is not in the field schema, construction fails
  in the first loop of \<^verbatim>\<open>__init__\<close>, before any validator runs or any attribute is
  assigned, with the "unexpected parameter" error naming the first keyword, in the order
  passed, that is not in the schema; that is the given keyword itself when every keyword
  before it is in the schema.
\<close>

theorem Parameters_init_unexpected_first:
  assumes "k \<in> set (map fst kwargs)" and "k \<notin> set (map fst ACCEPTED_PARAMETERS)"
  shows "\<exists>k'. find (\<lambda>k. k \<notin> set (map fst ACCEPTED_PARAMETERS)) (map fst kwargs) = Some k' \<and>
              check_keys kwargs [] = Inl (UnexpectedParameter k') \<and>
              Parameters_init today kwargs = Inl (UnexpectedParameter k') \<and>
              ((\<forall>j \<in> set (takeWhile (\<lambda>x. x \<noteq> k) (map fst kwargs)).
                   j \<in> set (map fst ACCEPTED_PARAMETERS)) \<longrightarrow> k' = k)"
proof -
  let ?P = "\<lambda>k. k \<notin> set (map fst ACCEPTED_PARAMETERS)"
  from assms have "find ?P (map fst kwargs) \<noteq> None" by (auto simp add: find_None_iff)
  then obtain k' where f: "find ?P (map fst kwargs) = Some k'" by blast
  have ck: "check_keys kwargs [] = Inl (UnexpectedParameter k')"
    by (rule check_keys_unexpected[OF f])
  have first: "k' = k" if "\<forall>j \<in> set (takeWhile (\<lambda>x. x \<noteq> k) (map fst kwargs)). j \<in> set (map fst ACCEPTED_PARAMETERS)"
    using f that assms
  proof (induction kwargs)
    case Nil
    then show ?case by simp
  next
    case (Cons a kwargs)
    then show ?case by (cases "fst a = k") (auto split: if_splits)
  qed
  show ?thesis using f ck first by (auto simp add: Parameters_init_def bind_def)
qed


section \<open>The flag-level validation function\<close>

lemma cli_args_bounds:
  "(name, c, mn, mx, h, req) \<in> set cli_args \<Longrightarrow>
     (case mn of None \<Rightarrow> True | Some m \<Rightarrow> num_of m \<noteq> None) \<and>
     (case mx of None \<Rightarrow> True | Some m \<Rightarrow> num_of m \<noteq> None) \<and>
     (mn = None \<and> mx = None \<or> c = C_int \<or> c = C_float)"
  by (auto simp add: cli_args_def num_of_def)

lemma call_cast_numeric:
  "call_cast c s = Inr v \<Longrightarrow> c = C_int \<or> c = C_float \<Longrightarrow> num_of v \<noteq> None"
  by (auto simp add: call_cast_def bind_Inr_iff num_of_def)

lemma check_min_numeric:
  assumes "num_of v \<noteq> None" "case mn of None \<Rightarrow> True | Some m \<Rightarrow> num_of m \<noteq> None"
    "case mx of None \<Rightarrow> True | Some m \<Rightarrow> num_of m \<noteq> None"
  shows "check_min arg mn mx v =
     (if below_min v mn then Inl (MustBeGreater arg (bound mn))
      else if above_max v mx then Inl (MustBeLess arg (bound mx)) else Inr v)"
  using assms
  by (cases mn; cases mx)
     (auto simp add: check_min_def check_max_def py_less_def below_min_def above_max_def bound_def bind_def)

lemma check_min_unbounded: "check_min arg None None v = Inr v"
  by (simp add: check_min_def check_max_def)

text \<open>
  C7: for every entry of the CLI schema, the validation function of the flag returns
  \<^verbatim>\<open>None\<close> on the empty string when the cast is not \<^verbatim>\<open>str\<close> and the entry is not required,
  and fails saying the flag is required when it is; otherwise it casts the string, fails
  with the bounds message exactly when a declared minimum exists and the value is below it
  or a declared maximum exists and the value is above it, and returns the cast value
  otherwise. An error of the cast itself is passed on.
\<close>

theorem validator_cli_entry:
  assumes "(name, c, mn, mx, h, req) \<in> set cli_args"
  shows "(s = [] \<and> c \<noteq> C_str \<and> \<not> req \<longrightarrow> validator (to_cli name) c mn mx req s = Inr PNone) \<and>
         (s = [] \<and> c \<noteq> C_str \<and> req \<longrightarrow> validator (to_cli name) c mn mx req s = Inl (IsRequired (to_cli name))) \<and>
         (\<not> (s = [] \<and> c \<noteq> C_str) \<longrightarrow>
            (\<forall>v. call_cast c s = Inr v \<longrightarrow>
               validator (to_cli name) c mn mx req s =
                 (if below_min v mn then Inl (MustBeGreater (to_cli name) (bound mn))
                  else if above_max v mx then Inl (MustBeLess (to_cli name) (bound mx))
                  else Inr v)) \<and>
            (\<forall>e. call_cast c s = Inl e \<longrightarrow> validator (to_cli name) c mn mx req s = Inl e))"
proof -
  note b = cli_args_bounds[OF assms]
  have cast_ok: "validator (to_cli name) c mn mx req s =
                 (if below_min v mn then Inl (MustBeGreater (to_cli name) (bound mn))
                  else if above_max v mx then Inl (MustBeLess (to_cli name) (bound mx))
                  else Inr v)"
    if ne: "\<not> (s = [] \<and> c \<noteq> C_str)" and cv: "call_cast c s = Inr v" for v
  proof (cases "mn = None \<and> mx = None")
    case True
    then show ?thesis using ne cv
      by (auto simp add: validator_def bind_def check_min_unbounded below_min_def above_max_def)
  next
    case False
    then have "num_of v \<noteq> None" using b call_cast_numeric[OF cv] by blast
    then show ?thesis using ne cv b
      by (auto simp add: validator_def bind_def check_min_numeric)
  qed
  show ?thesis using cast_ok by (auto simp add: validator_def bind_def)
qed

section \<open>The round trip\<close>

lemma create_round_trip_value:
  "create today files Map.empty argv_round_trip =
     Inr \<lparr>current_date = PDate today, current_hospitalized = PInt 20,
        date_first_hospitalized = PNone, doubling_time = PFloat 4,
        hospitalized = Disposition (PInt 7) (PFloat (25 / 1000)),
        icu = Disposition (PInt 9) (PFloat (75 / 10000)),
        infectious_days = PInt 14, market_share = PFloat (15 / 100),
        max_y_axis = PInt 500, mitigation_date = PDate today,
        n_days = PInt 60, population = PInt 1000, region = PNone,
        relative_contact_rate = PFloat (3 / 10), recovered = PInt 0,
        ventilated = Disposition (PInt 10) (PFloat (5 / 1000)),
        labels =
          [(''hospitalized'', ''Hospitalized''), (''icu'', ''ICU''),
           (''ventilated'', ''Ventilated''), (''day'', ''Day''),
           (''date'', ''Date''), (''susceptible'', ''Susceptible''),
           (''infected'', ''Infected''), (''recovered'', ''Recovered'')],
        dispositions =
          [(''hospitalized'', Disposition (PInt 7) (PFloat (25 / 1000))),
           (''icu'', Disposition (PInt 9) (PFloat (75 / 10000))),
           (''ventilated'', Disposition (PInt 10) (PFloat (5 / 1000)))]\<rparr>"
  by code_simp

text \<open>
  C1: resolving the argument vector \<^verbatim>\<open>--population 1000 --market-share 0.15
  --relative-contact-rate 0.3 --doubling-time 4 --infectious-days 14 --hospitalized-days 7
  --hospitalized-rate 0.025 --icu-days 9 --icu-rate 0.0075 --ventilated-days 10
  --ventilated-rate 0.005 --current-hospitalized 20 --n-days 60 --max-y-axis 500
  --recovered 0\<close>, with no parameters file and no \<^verbatim>\<open>PARAMETERS\<close> entry in the environment,
  succeeds, whatever the day and whatever files exist; the object's \<^verbatim>\<open>hospitalized\<close> is the
  disposition of 7 days and rate 0.025, its \<^verbatim>\<open>population\<close> is 1000, and the rate of
  \<^verbatim>\<open>dispositions["icu"]\<close> is 0.0075.
\<close>

theorem create_round_trip:
  "\<exists>p. create today files Map.empty argv_round_trip = Inr p \<and>
       hospitalized p = Disposition (PInt 7) (PFloat (25 / 1000)) \<and>
       population p = PInt 1000 \<and>
       (\<exists>d. map_of (dispositions p) ''icu'' = Some (Disposition d (PFloat (75 / 10000))))"
  by (simp add: create_round_trip_value)

section \<open>The field schema as the list of keywords\<close>

text \<open>
  C6, as stated: the schema does not have exactly 15 names.
\<close>

theorem ACCEPTED_PARAMETERS_not_fifteen:
  "card (set (map fst ACCEPTED_PARAMETERS)) \<noteq> 15"
  unfolding accepted_card by simp

lemma check_keys_keys:
  "check_keys kwargs passed = Inr r \<Longrightarrow>
     set (map fst r) \<subseteq> set (map fst passed) \<union> set (map fst kwargs)"
proof (induction kwargs passed rule: check_keys.induct)
  case (1 passed)
  then show ?case by simp
next
  case (2 key "value" kwargs passed)
  then have "set (map fst r) \<subseteq> set (map fst (AList.update key value passed)) \<union> set (map fst kwargs)"
    by (auto split: if_splits)
  then show ?case by (auto simp add: update_keys split: if_splits)
qed

lemma finish_init_Inl:
  "finish_init today self = Inl e \<Longrightarrow> e = AssertionError \<or> (\<exists>k v. e = ValidationError k v)"
  by (auto simp add: finish_init_def Let_def seq_def Date_def split: if_splits sum.splits pyval.splits)

lemma Parameters_init_unexpected_iff:
  "(\<exists>k. Parameters_init today kwargs = Inl (UnexpectedParameter k)) \<longleftrightarrow>
     \<not> set (map fst kwargs) \<subseteq> set (map fst ACCEPTED_PARAMETERS)"
proof
  assume "\<exists>k. Parameters_init today kwargs = Inl (UnexpectedParameter k)"
  then obtain k where k: "Parameters_init today kwargs = Inl (UnexpectedParameter k)" by blast
  show "\<not> set (map fst kwargs) \<subseteq> set (map fst ACCEPTED_PARAMETERS)"
  proof (cases "check_keys kwargs []")
    case (Inl e)
    from check_keys_Inl[OF Inl] obtain k' where
      "find (\<lambda>k. k \<notin> set (map fst ACCEPTED_PARAMETERS)) (map fst kwargs) = Some k'" by blast
    then obtain i where "i < length (map fst kwargs)" and "map fst kwargs ! i = k'"
      and "k' \<notin> set (map fst ACCEPTED_PARAMETERS)"
      unfolding find_Some_iff by blast
    then show ?thesis using nth_mem by blast
  next
    case (Inr passed)
    have sub: "set (map fst passed) \<subseteq> set (map fst kwargs)"
      using check_keys_keys[OF Inr] by simp
    have sub': "set (map fst kwargs) \<subseteq> set (map fst ACCEPTED_PARAMETERS)"
      by (rule check_keys_Inr[OF Inr])
    show ?thesis
    proof (cases "validate_and_set passed properties_None")
      case (Inl e)
      then have "\<exists>k v. e = ValidationError k v"
        using validate_and_set_Inl[OF Inl] sub sub' by blast
      then show ?thesis using k Inr Inl by (auto simp add: Parameters_init_def bind_def)
    next
      case (Inr self)
      then have "finish_init today self = Inl (UnexpectedParameter k)"
        using k \<open>check_keys kwargs [] = Inr passed\<close> by (simp add: Parameters_init_def bind_def)
      then show ?thesis using finish_init_Inl by blast
    qed
  qed
next
  assume "\<not> set (map fst kwargs) \<subseteq> set (map fst ACCEPTED_PARAMETERS)"
  then have "find (\<lambda>k. k \<notin> set (map fst ACCEPTED_PARAMETERS)) (map fst kwargs) \<noteq> None"
    by (auto simp add: find_None_iff)
  then obtain k where "find (\<lambda>k. k \<notin> set (map fst ACCEPTED_PARAMETERS)) (map fst kwargs) = Some k"
    by blast
  then have "check_keys kwargs [] = Inl (UnexpectedParameter k)"
    by (rule check_keys_unexpected)
  then show "\<exists>k. Parameters_init today kwargs = Inl (UnexpectedParameter k)"
    by (auto simp add: Parameters_init_def bind_def)
qed

text \<open>
  C6 (amended): \<^verbatim>\<open>ACCEPTED_PARAMETERS\<close> has exactly 16 names (the spec's list leaves out
  \<^verbatim>\<open>date_first_hospitalized\<close>), and it is the authoritative list: the constructor rejects a
  keyword dictionary with the "unexpected parameter" error if and only if one of its
  keywords is not among these names.
\<close>

theorem ACCEPTED_PARAMETERS_sixteen:
  "card (set (map fst ACCEPTED_PARAMETERS)) = 16 \<and>
   ((\<exists>k. Parameters_init today kwargs = Inl (UnexpectedParameter k)) \<longleftrightarrow>
      \<not> set (map fst kwargs) \<subseteq> set (map fst ACCEPTED_PARAMETERS))"
  using accepted_card Parameters_init_unexpected_iff by blast

section \<open>Date defaults and the population/region check\<close>

lemma Parameters_init_distinct:
  assumes "Parameters_init today kwargs = Inr p" and "distinct (map fst kwargs)"
  shows "\<exists>self. validate_and_set kwargs properties_None = Inr self \<and> finish_init today self = Inr p \<and>
           (\<forall>k. attribute self k = (case map_of kwargs k of Some v \<Rightarrow> v | None \<Rightarrow> PNone))"
proof -
  from Parameters_init_Inr[OF assms(1)] obtain passed self where
    ck: "check_keys kwargs [] = Inr passed" and
    vs: "validate_and_set passed properties_None = Inr self" and
    fi: "finish_init today self = Inr p" by blast
  have "passed = kwargs" using check_keys_distinct[OF ck assms(2)] by simp
  then show ?thesis
    using vs fi validate_and_set_attribute[OF vs] assms(2)
    by (auto simp add: attribute_None split: option.splits)
qed

lemma attribute_dates:
  "current_date self = attribute self ''current_date''"
  "mitigation_date self = attribute self ''mitigation_date''"
  "region self = attribute self ''region''"
  "population self = attribute self ''population''"
  by (simp_all add: attribute_def)

text \<open>
  C9: whenever construction succeeds and \<^verbatim>\<open>current_date\<close> is unset (missing from the
  keywords, or \<^verbatim>\<open>None\<close>), the object's \<^verbatim>\<open>current_date\<close> is the day \<^verbatim>\<open>date.today()\<close> returned;
  likewise for \<^verbatim>\<open>mitigation_date\<close>; and both dates of the object have passed the \<^verbatim>\<open>Date\<close>
  validator, which runs after the defaults are set. The keywords are a dictionary: no key
  twice.
\<close>

theorem Parameters_init_dates_default_today:
  assumes "Parameters_init today kwargs = Inr p" and "distinct (map fst kwargs)"
  shows "(unset kwargs ''current_date'' \<longrightarrow> current_date p = PDate today) \<and>
         (unset kwargs ''mitigation_date'' \<longrightarrow> mitigation_date p = PDate today) \<and>
         Date ''current_date'' (current_date p) = Inr () \<and>
         Date ''mitigation_date'' (mitigation_date p) = Inr ()"
proof -
  from Parameters_init_distinct[OF assms] obtain self where
    fi: "finish_init today self = Inr p" and
    at: "\<And>k. attribute self k = (case map_of kwargs k of Some v \<Rightarrow> v | None \<Rightarrow> PNone)" by blast
  note f = finish_init_Inr[OF fi]
  have c: "unset kwargs ''current_date'' \<Longrightarrow> current_date self = PNone"
    unfolding attribute_dates at by (auto simp add: unset_def split: option.splits)
  have m: "unset kwargs ''mitigation_date'' \<Longrightarrow> mitigation_date self = PNone"
    unfolding attribute_dates at by (auto simp add: unset_def split: option.splits)
  have "unset kwargs ''current_date'' \<longrightarrow> current_date p = PDate today" using f c by auto
  moreover have "unset kwargs ''mitigation_date'' \<longrightarrow> mitigation_date p = PDate today" using f m by auto
  ultimately show ?thesis using f by blast
qed

text \<open>
  C3, as stated, at \<^verbatim>\<open>population=1000, region=Regions(north=600, south=400)\<close>: both are
  supplied, not exactly one, and construction succeeds.
\<close>

theorem Parameters_init_both_region_and_population:
  "\<not> isl (Parameters_init (date 2020 3 28) kwargs_both) \<and>
   supplied kwargs_both ''region'' \<and> supplied kwargs_both ''population''"
  by code_simp

lemma validate_and_set_total:
  "\<forall>(k, v) \<in> set passed. \<exists>f c h. map_of ACCEPTED_PARAMETERS k = Some (f, c, h) \<and> f k v = Inr () \<Longrightarrow>
     \<exists>self'. validate_and_set passed self = Inr self'"
  by (induction passed self rule: validate_and_set.induct) auto

lemma check_keys_total:
  "set (map fst kwargs) \<subseteq> set (map fst ACCEPTED_PARAMETERS) \<Longrightarrow> \<exists>r. check_keys kwargs passed = Inr r"
  by (induction kwargs passed rule: check_keys.induct) auto

text \<open>
  C3 (amended): construction succeeds only if at least one of \<^verbatim>\<open>region\<close> and
  \<^verbatim>\<open>population\<close> is supplied (not \<^verbatim>\<open>None\<close>); whenever both are absent it fails, and the
  failure is the population/region error when every keyword is in the schema and passes
  its validator (an unexpected keyword or a rejected value is reported first).
\<close>

theorem Parameters_init_population_or_region:
  assumes "distinct (map fst kwargs)"
  shows "(\<forall>p. Parameters_init today kwargs = Inr p \<longrightarrow>
            supplied kwargs ''region'' \<or> supplied kwargs ''population'') \<and>
         (\<not> supplied kwargs ''region'' \<and> \<not> supplied kwargs ''population'' \<longrightarrow>
            (\<exists>e. Parameters_init today kwargs = Inl e) \<and>
            ((\<forall>(k, v) \<in> set kwargs. \<exists>f c h. map_of ACCEPTED_PARAMETERS k = Some (f, c, h) \<and> f k v = Inr ())
               \<longrightarrow> Parameters_init today kwargs = Inl AssertionError))"
proof -
  have one: "supplied kwargs ''region'' \<or> supplied kwargs ''population''"
    if ok: "Parameters_init today kwargs = Inr p" for p
  proof -
    from Parameters_init_distinct[OF ok assms] obtain self where
      fi: "finish_init today self = Inr p" and
      at: "\<And>k. attribute self k = (case map_of kwargs k of Some v \<Rightarrow> v | None \<Rightarrow> PNone)" by blast
    from finish_init_Inr[OF fi] have "region self \<noteq> PNone \<or> population self \<noteq> PNone" by blast
    then show ?thesis unfolding attribute_dates at
      by (auto simp add: supplied_def split: option.splits)
  qed
  have fails: "\<exists>e. Parameters_init today kwargs = Inl e"
    if "\<not> supplied kwargs ''region'' \<and> \<not> supplied kwargs ''population''"
    using one that by (cases "Parameters_init today kwargs") auto
  have assertion: "Parameters_init today kwargs = Inl AssertionError"
    if no: "\<not> supplied kwargs ''region'' \<and> \<not> supplied kwargs ''population''"
    and val: "\<forall>(k, v) \<in> set kwargs. \<exists>f c h. map_of ACCEPTED_PARAMETERS k = Some (f, c, h) \<and> f k v = Inr ()"
  proof -
    have sub: "set (map fst kwargs) \<subseteq> set (map fst ACCEPTED_PARAMETERS)"
    proof
      fix k assume "k \<in> set (map fst kwargs)"
      then obtain v where "(k, v) \<in> set kwargs" by auto
      with val obtain fe where "map_of ACCEPTED_PARAMETERS k = Some fe" by blast
      then show "k \<in> set (map fst ACCEPTED_PARAMETERS)"
        by (metis map_of_eq_None_iff option.distinct(1) set_map)
    qed
    from check_keys_total[OF sub] obtain passed where ck: "check_keys kwargs [] = Inr passed" by blast
    have pk: "passed = kwargs" using check_keys_distinct[OF ck assms] by simp
    from validate_and_set_total[OF val] obtain self where
      vs: "validate_and_set kwargs properties_None = Inr self" by blast
    have at: "attribute self k = (case map_of kwargs k of Some v \<Rightarrow> v | None \<Rightarrow> PNone)" for k
      using validate_and_set_attribute[OF vs assms]
      by (simp add: attribute_None split: option.splits)
    have "region self = PNone \<and> population self = PNone"
      unfolding attribute_dates at using no by (auto simp add: supplied_def split: option.splits)
    then have "finish_init today self = Inl AssertionError" by (simp add: finish_init_def)
    then show ?thesis using ck pk vs by (simp add: Parameters_init_def bind_def)
  qed
  show ?thesis using one fails assertion by blast
qed

section \<open>The argument parser\<close>

lemma parser_option_strings:
  "map option_string parser =
     [''--parameters'', ''--current-hospitalized'', ''--current-date'',
      ''--date-first-hospitalized'', ''--doubling-time'',
      ''--hospitalized-days'', ''--hospitalized-rate'', ''--icu-days'',
      ''--icu-rate'', ''--market-share'', ''--infectious-days'',
      ''--mitigation-date'', ''--max-y-axis'', ''--n-days'', ''--recovered'',
      ''--relative-contact-rate'', ''--population'', ''--ventilated-days'',
      ''--ventilated-rate'']"
  by code_simp

lemma parser_dests:
  "map dest parser =
     [''parameters'', ''current_hospitalized'', ''current_date'',
      ''date_first_hospitalized'', ''doubling_time'', ''hospitalized_days'',
      ''hospitalized_rate'', ''icu_days'', ''icu_rate'', ''market_share'',
      ''infectious_days'', ''mitigation_date'', ''max_y_axis'', ''n_days'',
      ''recovered'', ''relative_contact_rate'', ''population'',
      ''ventilated_days'', ''ventilated_rate'']"
  by code_simp

lemma parser_looks: "list_all looks_like_option (map option_string parser)"
  by code_simp

lemma parser_wf: "wf_actions parser"
  unfolding wf_actions_def
proof (intro conjI)
  show "distinct (map option_string parser)" unfolding parser_option_strings by simp
  show "distinct (map dest parser)" unfolding parser_dests by simp
  show "list_all looks_like_option (map option_string parser)" by (rule parser_looks)
qed

lemma set_defaults_parser_empty:
  "map fst (set_defaults parser []) = map dest parser"
  by code_simp

text \<open>
  A successful parse keeps the attributes of the namespace, leaves alone every attribute
  whose flag is not among the tokens, and gives an attribute whose flag is among the
  tokens a value that does not depend on the namespace parsed into.
\<close>

lemma find_SomeD: "find P xs = Some x \<Longrightarrow> P x \<and> x \<in> set xs"
  by (induction xs) (auto split: if_splits)

lemma parse_optionals_keys:
  "parse_optionals acts toks ns ex = Inr (ns', ex') \<Longrightarrow>
     \<forall>a \<in> set acts. dest a \<in> set (map fst ns) \<Longrightarrow> map fst ns' = map fst ns"
proof (induction acts toks ns ex rule: parse_optionals.induct)
  case (1 acts ns extras)
  then show ?case by simp
next
  case (2 acts t ts ns extras)
  show ?case
  proof (cases "find (\<lambda>a. option_string a = t) acts")
    case None
    then show ?thesis using 2 by (auto split: if_splits)
  next
    case (Some a)
    then have a: "a \<in> set acts" using find_SomeD by fastforce
    from "2.prems"(1) Some obtain v rest "value" where
      ts: "ts = v # rest" and nh: "\<not> (t = ''-h'' \<or> t = ''--help'')" and nl: "\<not> looks_like_option v"
      and ty: "type_fn a v = Inr value"
      and rec: "parse_optionals acts rest (AList.update (dest a) value ns) extras = Inr (ns', ex')"
      by (auto split: if_splits list.splits sum.splits)
    have k: "map fst (AList.update (dest a) value ns) = map fst ns"
      using "2.prems"(2) a by (simp add: update_keys)
    have "map fst ns' = map fst (AList.update (dest a) value ns)"
      using "2.IH"(2)[OF nh Some ts nl ty rec] "2.prems"(2) k by simp
    then show ?thesis using k by simp
  qed
qed

lemma parse_optionals_untouched:
  "parse_optionals acts toks ns ex = Inr (ns', ex') \<Longrightarrow>
     \<forall>a \<in> set acts. dest a = d \<longrightarrow> option_string a \<notin> set toks \<Longrightarrow>
     map_of ns' d = map_of ns d"
proof (induction acts toks ns ex rule: parse_optionals.induct)
  case (1 acts ns extras)
  then show ?case by simp
next
  case (2 acts t ts ns extras)
  show ?case
  proof (cases "find (\<lambda>a. option_string a = t) acts")
    case None
    then show ?thesis using 2 by (auto split: if_splits)
  next
    case (Some a)
    then have a: "a \<in> set acts" "option_string a = t" using find_SomeD by fastforce+
    from "2.prems"(1) Some obtain v rest "value" where
      ts: "ts = v # rest" and nh: "\<not> (t = ''-h'' \<or> t = ''--help'')" and nl: "\<not> looks_like_option v"
      and ty: "type_fn a v = Inr value"
      and rec: "parse_optionals acts rest (AList.update (dest a) value ns) extras = Inr (ns', ex')"
      by (auto split: if_splits list.splits sum.splits)
    have ne: "dest a \<noteq> d" using "2.prems"(2) a by auto
    have "map_of ns' d = map_of (AList.update (dest a) value ns) d"
      using "2.IH"(2)[OF nh Some ts nl ty rec] "2.prems"(2) ts by simp
    then show ?thesis using ne by (simp add: update_conv')
  qed
qed

lemma parse_optionals_same:
  "parse_optionals acts toks ns1 ex1 = Inr (n1, e1) \<Longrightarrow>
   parse_optionals acts toks ns2 ex2 = Inr (n2, e2) \<Longrightarrow>
   wf_actions acts \<Longrightarrow> b \<in> set acts \<Longrightarrow> option_string b \<in> set toks \<Longrightarrow>
     map_of n1 (dest b) = map_of n2 (dest b)"
proof (induction acts toks ns1 ex1 arbitrary: ns2 ex2 rule: parse_optionals.induct)
  case (1 acts ns extras)
  then show ?case by simp
next
  case (2 acts t ts ns extras)
  have wf: "distinct (map option_string acts)" "distinct (map dest acts)"
    "\<And>a. a \<in> set acts \<Longrightarrow> looks_like_option (option_string a)"
    using "2.prems"(3) by (auto simp add: wf_actions_def list_all_iff)
  show ?case
  proof (cases "find (\<lambda>a. option_string a = t) acts")
    case None
    then have "option_string b \<noteq> t" using "2.prems"(4) by (auto simp add: find_None_iff)
    then have in_ts: "option_string b \<in> set ts" using "2.prems"(5) by simp
    from None "2.prems"(1) have nh: "\<not> (t = ''-h'' \<or> t = ''--help'')"
      and r1: "parse_optionals acts ts ns (extras @ [t]) = Inr (n1, e1)"
      by (auto split: if_splits)
    from None "2.prems"(2) have r2: "parse_optionals acts ts ns2 (ex2 @ [t]) = Inr (n2, e2)"
      by (auto split: if_splits)
    show ?thesis using "2.IH"(1)[OF nh None r1 r2 "2.prems"(3,4) in_ts] .
  next
    case (Some a)
    then have a: "a \<in> set acts" "option_string a = t" using find_SomeD by fastforce+
    from "2.prems"(1) Some obtain v rest "value" where
      ts: "ts = v # rest" and nh: "\<not> (t = ''-h'' \<or> t = ''--help'')" and nl: "\<not> looks_like_option v"
      and ty: "type_fn a v = Inr value"
      and r1: "parse_optionals acts rest (AList.update (dest a) value ns) extras = Inr (n1, e1)"
      by (auto split: if_splits list.splits sum.splits)
    from "2.prems"(2) Some ts ty have
      r2: "parse_optionals acts rest (AList.update (dest a) value ns2) ex2 = Inr (n2, e2)"
      by (auto split: if_splits list.splits sum.splits)
    have nv: "option_string b \<noteq> v" using wf(3)[OF "2.prems"(4)] nl by auto
    show ?thesis
    proof (cases "option_string b \<in> set rest")
      case True
      show ?thesis using "2.IH"(2)[OF nh Some ts nl ty r1 r2 "2.prems"(3,4) True] .
    next
      case False
      then have bt: "option_string b = t" using "2.prems"(5) ts nv by simp
      then have ba: "b = a" using wf(1) a "2.prems"(4) by (simp add: distinct_map inj_on_def)
      have unt: "\<forall>a' \<in> set acts. dest a' = dest b \<longrightarrow> option_string a' \<notin> set rest"
      proof (intro ballI impI)
        fix a' assume "a' \<in> set acts" "dest a' = dest b"
        then have "a' = b" using wf(2) "2.prems"(4) by (simp add: distinct_map inj_on_def)
        then show "option_string a' \<notin> set rest" using False by simp
      qed
      have "map_of n1 (dest b) = map_of (AList.update (dest a) value ns) (dest b)"
        by (rule parse_optionals_untouched[OF r1 unt])
      moreover have "map_of n2 (dest b) = map_of (AList.update (dest a) value ns2) (dest b)"
        by (rule parse_optionals_untouched[OF r2 unt])
      ultimately show ?thesis using ba by (simp add: update_conv')
    qed
  qed
qed

lemma set_defaults_map_of:
  "map_of (set_defaults acts ns) d =
     (case map_of ns d of Some v \<Rightarrow> Some v
      | None \<Rightarrow> if d \<in> set (map dest acts) then Some PNone else None)"
  unfolding set_defaults_def
proof (induction acts arbitrary: ns)
  case Nil
  then show ?case by (simp split: option.splits)
next
  case (Cons a acts)
  show ?case by (auto simp add: Cons.IH split: option.splits)
qed

lemma set_defaults_keys:
  "\<forall>a \<in> set acts. dest a \<in> set (map fst ns) \<Longrightarrow> set_defaults acts ns = ns"
  unfolding set_defaults_def
proof (induction acts arbitrary: ns)
  case Nil
  then show ?case by simp
next
  case (Cons a acts)
  then have "map_of ns (dest a) \<noteq> None" by (simp add: map_of_eq_None_iff)
  then show ?case using Cons by auto
qed

lemma bind_Inr_left: "bind (Inr x) f = f x"
  by (simp add: bind_def)

lemma parse_args_Inr:
  "parse_args acts toks ns = Inr ns' \<Longrightarrow>
     parse_optionals acts toks (set_defaults acts ns) [] = Inr (ns', [])"
  by (auto simp add: parse_args_def bind_Inr_iff split: if_splits)

lemma set_defaults_has_dests:
  "a \<in> set acts \<Longrightarrow> dest a \<in> set (map fst (set_defaults acts ns))"
proof -
  assume "a \<in> set acts"
  then have "map_of (set_defaults acts ns) (dest a) \<noteq> None"
    by (auto simp add: set_defaults_map_of split: option.splits)
  then show ?thesis by (simp add: map_of_eq_None_iff)
qed

lemma parse_args_keys:
  "parse_args acts toks ns = Inr ns' \<Longrightarrow> map fst ns' = map fst (set_defaults acts ns)"
  using parse_optionals_keys[OF parse_args_Inr] set_defaults_has_dests by blast

lemma parse_args_parser_keys:
  "parse_args parser toks [] = Inr ns' \<Longrightarrow> map fst ns' = map dest parser"
  using parse_args_keys by (simp add: set_defaults_parser_empty)

lemma parse_args_full_keys:
  "parse_args parser toks ns = Inr ns' \<Longrightarrow> map fst ns = map dest parser \<Longrightarrow>
     map fst ns' = map dest parser \<and> set_defaults parser ns = ns"
proof -
  assume p: "parse_args parser toks ns = Inr ns'" and k: "map fst ns = map dest parser"
  have "\<forall>a \<in> set parser. dest a \<in> set (map fst ns)" unfolding k by simp
  then have "set_defaults parser ns = ns" by (rule set_defaults_keys)
  then show ?thesis using parse_args_keys[OF p] k by simp
qed

lemma parse_args_absent:
  assumes p: "parse_args parser toks ns = Inr ns'"
    and b: "b \<in> set parser" and nt: "option_string b \<notin> set toks"
  shows "map_of ns' (dest b) = map_of (set_defaults parser ns) (dest b)"
proof -
  have unt: "\<forall>a' \<in> set parser. dest a' = dest b \<longrightarrow> option_string a' \<notin> set toks"
  proof (intro ballI impI)
    fix a' assume "a' \<in> set parser" "dest a' = dest b"
    then have "a' = b" using parser_wf b by (simp add: wf_actions_def distinct_map inj_on_def)
    then show "option_string a' \<notin> set toks" using nt by simp
  qed
  show ?thesis by (rule parse_optionals_untouched[OF parse_args_Inr[OF p] unt])
qed

section \<open>Layering the file over the command line\<close>

lemma Disposition_create_Inr:
  "Disposition_create d r = Inr h \<Longrightarrow> h = Disposition d r"
  by (auto simp add: Disposition_create_def seq_Inr_iff)

lemma bind_InrE: "bind m f = Inr y \<Longrightarrow> (\<And>x. m = Inr x \<Longrightarrow> f x = Inr y \<Longrightarrow> P) \<Longrightarrow> P"
  by (auto simp add: bind_Inr_iff)

lemma seq_InrE: "seq m k = Inr y \<Longrightarrow> (m = Inr () \<Longrightarrow> k = Inr y \<Longrightarrow> P) \<Longrightarrow> P"
  by (auto simp add: seq_Inr_iff)

lemma getattr_InrE: "getattr a k = Inr v \<Longrightarrow> (map_of a k = Some v \<Longrightarrow> P) \<Longrightarrow> P"
  by (auto simp add: getattr_def split: option.splits)

lemma delattr_InrE: "delattr a k = Inr a' \<Longrightarrow> (a' = AList.delete k a \<Longrightarrow> P) \<Longrightarrow> P"
  by (auto simp add: delattr_def split: option.splits)


lemma create_disposition_Inr:
  "create_disposition a dk rk = Inr h \<Longrightarrow>
     \<exists>d r. map_of a dk = Some d \<and> map_of a rk = Some r \<and> h = Disposition d r"
  unfolding create_disposition_def
  by (elim bind_InrE getattr_InrE) (auto dest: Disposition_create_Inr)

lemma delete_days_and_rates_Inr:
  "delete_days_and_rates a = Inr a' \<Longrightarrow>
     a' = AList.delete ''ventilated_rate'' (AList.delete ''ventilated_days''
                (AList.delete ''icu_rate'' (AList.delete ''icu_days''
                  (AList.delete ''hospitalized_rate'' (AList.delete ''hospitalized_days'' a)))))"
  unfolding delete_days_and_rates_def
  by (elim bind_InrE delattr_InrE) simp

lemma create_namespace_cases:
  assumes "create_namespace files env argv = Inr a"
  shows "\<exists>cli. parse_args parser argv [] = Inr cli \<and>
           ((map_of cli ''parameters'' = Some PNone \<and> env ''PARAMETERS'' = None \<and>
             a = AList.delete ''parameters'' cli) \<or>
            (\<exists>path contents a1.
               (map_of cli ''parameters'' = Some (PStr path) \<or>
                map_of cli ''parameters'' = Some PNone \<and> env ''PARAMETERS'' = Some path) \<and>
               files path = Some contents \<and>
               parse_args parser (str_split contents) (AList.update ''parameters'' (PStr path) cli) = Inr a1 \<and>
               a = AList.delete ''parameters'' a1))"
proof -
  from assms obtain cli p where cli: "parse_args parser argv [] = Inr cli"
    and p: "map_of cli ''parameters'' = Some p"
    and rest: "(let a = (if p = PNone
              then AList.update ''parameters''
                     (case env ''PARAMETERS'' of None \<Rightarrow> PNone | Some path \<Rightarrow> PStr path) cli
              else cli)
     in
     bind (getattr a ''parameters'') (\<lambda>p.
     bind (case p of
             PNone \<Rightarrow> Inr a
           | PStr path \<Rightarrow>
               (case files path of
                  None \<Rightarrow> Inl (FileNotFound path)
                | Some contents \<Rightarrow> parse_args parser (str_split contents) a)
           | _ \<Rightarrow> Inl TypeError) (\<lambda>a.
     delattr a ''parameters''))) = Inr a"
    unfolding create_namespace_def by (elim bind_InrE getattr_InrE) blast
  show ?thesis
  proof (cases "p = PNone")
    case True
    show ?thesis
    proof (cases "env ''PARAMETERS''")
      case None
      have "AList.update ''parameters'' PNone cli = cli"
        using p True by (simp add: update_triv)
      then show ?thesis using rest True None cli p
        by (auto simp add: Let_def getattr_def bind_Inr_iff bind_Inr_left delattr_def
            split: option.splits)
    next
      case (Some path)
      then show ?thesis using rest True cli p
        by (auto simp add: Let_def getattr_def bind_Inr_iff bind_Inr_left delattr_def update_conv'
            split: option.splits)
    qed
  next
    case False
    then have r: "bind (case p of
             PNone \<Rightarrow> Inr cli
           | PStr path \<Rightarrow>
               (case files path of
                  None \<Rightarrow> Inl (FileNotFound path)
                | Some contents \<Rightarrow> parse_args parser (str_split contents) cli)
           | _ \<Rightarrow> Inl TypeError) (\<lambda>a.
     delattr a ''parameters'') = Inr a"
      using rest p by (simp add: getattr_def bind_def)
    then obtain path where pp: "p = PStr path" using False
      by (cases p) (simp_all add: bind_def)
    have "AList.update ''parameters'' (PStr path) cli = cli"
      using p pp by (simp add: update_triv)
    then show ?thesis using r pp cli p
      by (auto simp add: bind_Inr_iff delattr_def split: option.splits)
  qed
qed

lemma create_namespace_keys:
  assumes "create_namespace files env argv = Inr a"
  shows "map fst a = namespace_keys"
proof -
  from create_namespace_cases[OF assms] obtain cli where
    cli: "parse_args parser argv [] = Inr cli" and
    cs: "a = AList.delete ''parameters'' cli \<or>
         (\<exists>path contents a1.
            parse_args parser (str_split contents) (AList.update ''parameters'' (PStr path) cli) = Inr a1 \<and>
            a = AList.delete ''parameters'' a1)"
    by blast
  have k: "map fst cli = map dest parser" by (rule parse_args_parser_keys[OF cli])
  have rm: "removeAll ''parameters'' (map dest parser) = namespace_keys"
    unfolding parser_dests namespace_keys_def by simp
  from cs show ?thesis
  proof
    assume "a = AList.delete ''parameters'' cli"
    then show ?thesis using k rm by (simp add: delete_keys)
  next
    assume "\<exists>path contents a1.
            parse_args parser (str_split contents) (AList.update ''parameters'' (PStr path) cli) = Inr a1 \<and>
            a = AList.delete ''parameters'' a1"
    then obtain path contents a1 where
      p2: "parse_args parser (str_split contents) (AList.update ''parameters'' (PStr path) cli) = Inr a1"
      and a: "a = AList.delete ''parameters'' a1" by blast
    have "map fst (AList.update ''parameters'' (PStr path) cli) = map dest parser"
      using k by (simp add: update_keys parser_dests)
    then have "map fst a1 = map dest parser" using parse_args_full_keys[OF p2] by blast
    then show ?thesis using a rm by (simp add: delete_keys)
  qed
qed

lemma finish_init_attribute:
  assumes "finish_init today self = Inr p"
  shows "attribute p k = defaulted today k (attribute self k)"
proof -
  note f = finish_init_Inr[OF assms]
  show ?thesis
  proof (cases "k = ''current_date''")
    case True
    then show ?thesis using f by (simp add: attribute_def defaulted_def)
  next
    case nc: False
    show ?thesis
    proof (cases "k = ''mitigation_date''")
      case True
      then show ?thesis using f by (simp add: attribute_def defaulted_def)
    next
      case False
      then show ?thesis using f nc by (simp add: attribute_def defaulted_def)
    qed
  qed
qed

lemma attribute_dispositions:
  "hospitalized self = attribute self ''hospitalized''"
  "icu self = attribute self ''icu''"
  "ventilated self = attribute self ''ventilated''"
  by (simp_all add: attribute_def)

lemma entry_namespace_key:
  "(name, c, mn, mx, h, req) \<in> set cli_args \<Longrightarrow> name \<noteq> ''parameters'' \<Longrightarrow>
     dest_of (to_cli name) \<in> set namespace_keys"
  unfolding cli_args_def set_simps insert_iff empty_iff prod.inject
  by (elim disjE conjE FalseE) (simp_all add: to_cli_def dest_of_def namespace_keys_def)


lemma entry_action:
  "(name, c, mn, mx, h, req) \<in> set cli_args \<Longrightarrow>
     \<exists>b \<in> set parser. option_string b = to_cli name \<and> dest b = dest_of (to_cli name)"
proof -
  assume e: "(name, c, mn, mx, h, req) \<in> set cli_args"
  have "add_argument (name, c, mn, mx, h, req) \<in> set parser"
    unfolding parser_def using e by simp
  moreover have "option_string (add_argument (name, c, mn, mx, h, req)) = to_cli name"
    and "dest (add_argument (name, c, mn, mx, h, req)) = dest_of (to_cli name)"
    by (simp_all add: add_argument_def Let_def)
  ultimately show ?thesis by blast
qed

lemma namespace_keys_dests: "set namespace_keys \<subseteq> set (map dest parser)"
  unfolding parser_dests namespace_keys_def by simp

lemma parameters_not_key: "''parameters'' \<notin> set namespace_keys"
  unfolding namespace_keys_def by simp

lemma carried_keys:
  "carried p ''hospitalized_days'' = days_of (hospitalized p)"
  "carried p ''hospitalized_rate'' = rate_of (hospitalized p)"
  "carried p ''icu_days'' = days_of (icu p)"
  "carried p ''icu_rate'' = rate_of (icu p)"
  "carried p ''ventilated_days'' = days_of (ventilated p)"
  "carried p ''ventilated_rate'' = rate_of (ventilated p)"
  by (simp_all add: carried_def)

lemma defaulted_keys:
  "defaulted today ''hospitalized_days'' v = v"
  "defaulted today ''hospitalized_rate'' v = v"
  "defaulted today ''icu_days'' v = v"
  "defaulted today ''icu_rate'' v = v"
  "defaulted today ''ventilated_days'' v = v"
  "defaulted today ''ventilated_rate'' v = v"
  "defaulted today ''hospitalized'' v = v"
  "defaulted today ''icu'' v = v"
  "defaulted today ''ventilated'' v = v"
  "defaulted today ''region'' v = v"
  "defaulted today ''population'' v = v"
  by (simp_all add: defaulted_def)

lemma days_rate_of: "days_of (Disposition d r) = d" "rate_of (Disposition d r) = r"
  by (simp_all add: days_of_def rate_of_def)

lemma carried_days_and_rates:
  assumes hh: "map_of a ''hospitalized_days'' = Some h_d"
    "map_of a ''hospitalized_rate'' = Some h_r" "hospitalized p = Disposition h_d h_r"
  and ii: "map_of a ''icu_days'' = Some i_d"
    "map_of a ''icu_rate'' = Some i_r" "icu p = Disposition i_d i_r"
  and vv: "map_of a ''ventilated_days'' = Some v_d"
    "map_of a ''ventilated_rate'' = Some v_r" "ventilated p = Disposition v_d v_r"
  and v: "map_of a k = Some v"
  and True: "k \<in> {''hospitalized_days'', ''hospitalized_rate'', ''icu_days'', ''icu_rate'',
                 ''ventilated_days'', ''ventilated_rate''}"
  shows "carried p k = defaulted today k v"
  using True unfolding insert_iff empty_iff
proof (elim disjE FalseE)
  assume "k = ''hospitalized_days''"
  then show ?thesis using v hh by (simp add: carried_keys defaulted_keys days_rate_of)
next
  assume "k = ''hospitalized_rate''"
  then show ?thesis using v hh by (simp add: carried_keys defaulted_keys days_rate_of)
next
  assume "k = ''icu_days''"
  then show ?thesis using v ii by (simp add: carried_keys defaulted_keys days_rate_of)
next
  assume "k = ''icu_rate''"
  then show ?thesis using v ii by (simp add: carried_keys defaulted_keys days_rate_of)
next
  assume "k = ''ventilated_days''"
  then show ?thesis using v vv by (simp add: carried_keys defaulted_keys days_rate_of)
next
  assume "k = ''ventilated_rate''"
  then show ?thesis using v vv by (simp add: carried_keys defaulted_keys days_rate_of)
qed

lemma namespace_key_not_disposition:
  "k \<in> set namespace_keys \<Longrightarrow> k \<noteq> ''hospitalized'' \<and> k \<noteq> ''icu'' \<and> k \<noteq> ''ventilated''"
  unfolding namespace_keys_def set_simps insert_iff empty_iff
  by (elim disjE FalseE) simp_all

lemma create_parameters_InrE:
  assumes ok: "create_parameters today a = Inr p" and keys: "map fst a = namespace_keys"
  obtains kwargs self h_d h_r i_d i_r v_d v_r where
    "validate_days_and_rates a = Inr ()"
    "validate_and_set kwargs properties_None = Inr self"
    "finish_init today self = Inr p"
    "\<And>k. attribute p k =
           defaulted today k (case map_of kwargs k of Some v \<Rightarrow> v | None \<Rightarrow> PNone)"
    "\<And>k. k \<notin> {''hospitalized_days'', ''hospitalized_rate'', ''icu_days'', ''icu_rate'',
                 ''ventilated_days'', ''ventilated_rate'', ''hospitalized'', ''icu'', ''ventilated''}
          \<Longrightarrow> map_of kwargs k = map_of a k"
    "map_of kwargs ''region'' = None"
    "map_of a ''hospitalized_days'' = Some h_d" "map_of a ''hospitalized_rate'' = Some h_r"
    "map_of kwargs ''hospitalized'' = Some (Disposition h_d h_r)"
    "map_of a ''icu_days'' = Some i_d" "map_of a ''icu_rate'' = Some i_r"
    "map_of kwargs ''icu'' = Some (Disposition i_d i_r)"
    "map_of a ''ventilated_days'' = Some v_d" "map_of a ''ventilated_rate'' = Some v_r"
    "map_of kwargs ''ventilated'' = Some (Disposition v_d v_r)"
proof -
  from ok obtain h i v a' where
    va: "validate_days_and_rates a = Inr ()" and
    h: "create_disposition a ''hospitalized_days'' ''hospitalized_rate'' = Inr h" and
    i: "create_disposition a ''icu_days'' ''icu_rate'' = Inr i" and
    v: "create_disposition a ''ventilated_days'' ''ventilated_rate'' = Inr v" and
    d: "delete_days_and_rates a = Inr a'" and
    init: "Parameters_init today ([(''hospitalized'', h), (''icu'', i), (''ventilated'', v)] @ a') = Inr p"
    unfolding create_parameters_def by (elim seq_InrE bind_InrE) blast
  let ?kw = "[(''hospitalized'', h), (''icu'', i), (''ventilated'', v)] @ a'"
  note a' = delete_days_and_rates_Inr[OF d]
  have ka': "map fst a' = [''current_hospitalized'', ''current_date'',
      ''date_first_hospitalized'', ''doubling_time'', ''market_share'',
      ''infectious_days'', ''mitigation_date'', ''max_y_axis'', ''n_days'',
      ''recovered'', ''relative_contact_rate'', ''population'']"
    unfolding a' delete_keys keys namespace_keys_def by simp
  have dist: "distinct (map fst ?kw)" unfolding map_append ka' by simp
  from Parameters_init_distinct[OF init dist] obtain self where
    vs: "validate_and_set ?kw properties_None = Inr self" and
    fi: "finish_init today self = Inr p" and
    at: "\<And>k. attribute self k = (case map_of ?kw k of Some v \<Rightarrow> v | None \<Rightarrow> PNone)"
    by blast
  have 1: "attribute p k = defaulted today k (case map_of ?kw k of Some v \<Rightarrow> v | None \<Rightarrow> PNone)" for k
    using finish_init_attribute[OF fi] at by simp
  have 2: "map_of ?kw k = map_of a k"
    if "k \<notin> {''hospitalized_days'', ''hospitalized_rate'', ''icu_days'', ''icu_rate'',
                 ''ventilated_days'', ''ventilated_rate'', ''hospitalized'', ''icu'', ''ventilated''}" for k
    using that unfolding a' by (simp add: delete_conv')
  have "''region'' \<notin> set (map fst ?kw)" unfolding map_append ka' by simp
  then have 3: "map_of ?kw ''region'' = None"
    using map_of_eq_None_iff[of ?kw "''region''"] by simp
  from create_disposition_Inr[OF h] obtain h_d h_r where
    4: "map_of a ''hospitalized_days'' = Some h_d" "map_of a ''hospitalized_rate'' = Some h_r"
       "h = Disposition h_d h_r" by (elim exE conjE)
  from create_disposition_Inr[OF i] obtain i_d i_r where
    5: "map_of a ''icu_days'' = Some i_d" "map_of a ''icu_rate'' = Some i_r"
       "i = Disposition i_d i_r" by (elim exE conjE)
  from create_disposition_Inr[OF v] obtain v_d v_r where
    6: "map_of a ''ventilated_days'' = Some v_d" "map_of a ''ventilated_rate'' = Some v_r"
       "v = Disposition v_d v_r" by (elim exE conjE)
  have 7: "map_of ?kw ''hospitalized'' = Some (Disposition h_d h_r)"
    "map_of ?kw ''icu'' = Some (Disposition i_d i_r)"
    "map_of ?kw ''ventilated'' = Some (Disposition v_d v_r)"
    using 4(3) 5(3) 6(3) by simp_all
  show ?thesis
    by (rule that[OF va vs fi 1 2 3 4(1,2) 7(1) 5(1,2) 7(2) 6(1,2) 7(3)])
qed

lemma create_parameters_carried:
  assumes ok: "create_parameters today a = Inr p" and keys: "map fst a = namespace_keys"
    and k: "k \<in> set namespace_keys" and v: "map_of a k = Some v"
  shows "carried p k = defaulted today k v"
proof (rule create_parameters_InrE[OF ok keys])
  fix kwargs self h_d h_r i_d i_r v_d v_r
  assume at: "\<And>k. attribute p k =
           defaulted today k (case map_of kwargs k of Some v \<Rightarrow> v | None \<Rightarrow> PNone)"
    and same: "\<And>k. k \<notin> {''hospitalized_days'', ''hospitalized_rate'', ''icu_days'', ''icu_rate'',
                 ''ventilated_days'', ''ventilated_rate'', ''hospitalized'', ''icu'', ''ventilated''}
          \<Longrightarrow> map_of kwargs k = map_of a k"
    and h: "map_of a ''hospitalized_days'' = Some h_d" "map_of a ''hospitalized_rate'' = Some h_r"
    and hk: "map_of kwargs ''hospitalized'' = Some (Disposition h_d h_r)"
    and i: "map_of a ''icu_days'' = Some i_d" "map_of a ''icu_rate'' = Some i_r"
    and ik: "map_of kwargs ''icu'' = Some (Disposition i_d i_r)"
    and ve: "map_of a ''ventilated_days'' = Some v_d" "map_of a ''ventilated_rate'' = Some v_r"
    and vk: "map_of kwargs ''ventilated'' = Some (Disposition v_d v_r)"
  have hp: "hospitalized p = Disposition h_d h_r"
    unfolding attribute_dispositions at hk by (simp add: defaulted_keys)
  have ip: "icu p = Disposition i_d i_r"
    unfolding attribute_dispositions at ik by (simp add: defaulted_keys)
  have vp: "ventilated p = Disposition v_d v_r"
    unfolding attribute_dispositions at vk by (simp add: defaulted_keys)
  note hh = h hp and ii = i ip and vv = ve vp
  show ?thesis
  proof (cases "k \<in> {''hospitalized_days'', ''hospitalized_rate'', ''icu_days'', ''icu_rate'',
                 ''ventilated_days'', ''ventilated_rate''}")
    case True
    show ?thesis by (rule carried_days_and_rates[OF hh ii vv v True])
  next
    case False
    then have six: "k \<noteq> ''hospitalized_days''" "k \<noteq> ''hospitalized_rate''" "k \<noteq> ''icu_days''"
      "k \<noteq> ''icu_rate''" "k \<noteq> ''ventilated_days''" "k \<noteq> ''ventilated_rate''"
      unfolding insert_iff empty_iff by simp_all
    have three: "k \<noteq> ''hospitalized''" "k \<noteq> ''icu''" "k \<noteq> ''ventilated''"
      using namespace_key_not_disposition[OF k] by simp_all
    have "k \<notin> {''hospitalized_days'', ''hospitalized_rate'', ''icu_days'', ''icu_rate'',
                 ''ventilated_days'', ''ventilated_rate'', ''hospitalized'', ''icu'', ''ventilated''}"
      unfolding insert_iff empty_iff using six three by simp
    then have "map_of kwargs k = Some v" using same[of k] v by simp
    then have "attribute p k = defaulted today k v" using at[of k] by simp
    moreover have "carried p k = attribute p k" using six by (simp add: carried_def)
    ultimately show ?thesis by simp
  qed
qed

text \<open>
  C2: let resolution succeed with a parameters file, whose path comes from
  \<^verbatim>\<open>--parameters\<close> or else from \<^verbatim>\<open>PARAMETERS\<close>. Write \<open>cli\<close> for what the command line
  alone parses to and \<open>fil\<close> for what the tokens of the file alone parse to. Then for
  every flag of the schema other than \<^verbatim>\<open>--parameters\<close>, the final object carries the file's
  value when the flag is among the tokens of the file (whether or not the command line
  has it too), and the command line's value otherwise. A value of \<^verbatim>\<open>None\<close>, which is what
  a flag given nowhere or given the empty string has, stays \<^verbatim>\<open>None\<close>, but for the two dates
  that \<^verbatim>\<open>__init__\<close> sets to today.
\<close>

theorem create_file_overrides_cli:
  assumes ok: "create today files env argv = Inr p"
    and cli: "parse_args parser argv [] = Inr cli"
    and path: "map_of cli ''parameters'' = Some (PStr path) \<or>
               map_of cli ''parameters'' = Some PNone \<and> env ''PARAMETERS'' = Some path"
    and fc: "files path = Some contents"
    and fil: "parse_args parser (str_split contents) [] = Inr fil"
    and entry: "(name, c, mn, mx, h, req) \<in> set cli_args" and np: "name \<noteq> ''parameters''"
  shows "\<exists>v_cli v_file.
           map_of cli (dest_of (to_cli name)) = Some v_cli \<and>
           map_of fil (dest_of (to_cli name)) = Some v_file \<and>
           carried p (dest_of (to_cli name)) =
             defaulted today (dest_of (to_cli name))
               (if to_cli name \<in> set (str_split contents) then v_file else v_cli)"
proof -
  let ?d = "dest_of (to_cli name)" and ?toks = "str_split contents"
  let ?cli' = "AList.update ''parameters'' (PStr path) cli"
  from ok obtain a where ns: "create_namespace files env argv = Inr a"
    and cp: "create_parameters today a = Inr p"
    unfolding create_def by (elim bind_InrE)
  from create_namespace_cases[OF ns] cli path fc obtain a1 where
    p2: "parse_args parser ?toks ?cli' = Inr a1" and a: "a = AList.delete ''parameters'' a1"
    by auto
  have dk: "?d \<in> set namespace_keys" by (rule entry_namespace_key[OF entry np])
  then have dn: "?d \<noteq> ''parameters''" using parameters_not_key by auto
  from entry_action[OF entry] obtain b where b: "b \<in> set parser" "option_string b = to_cli name"
    "dest b = ?d" by blast
  have kc: "map fst cli = map dest parser" by (rule parse_args_parser_keys[OF cli])
  have kf: "map fst fil = map dest parser" by (rule parse_args_parser_keys[OF fil])
  have "?d \<in> set (map fst cli)" "?d \<in> set (map fst fil)"
    using dk namespace_keys_dests kc kf by auto
  then obtain v_cli v_file where vc: "map_of cli ?d = Some v_cli" and vf: "map_of fil ?d = Some v_file"
    by (metis map_of_eq_None_iff not_None_eq set_map)
  have kc': "map fst ?cli' = map dest parser" using kc by (simp add: update_keys parser_dests)
  have sd: "set_defaults parser ?cli' = ?cli'" using parse_args_full_keys[OF p2 kc'] by blast
  have po1: "parse_optionals parser ?toks ?cli' [] = Inr (a1, [])"
    using parse_args_Inr[OF p2] sd by simp
  have po2: "parse_optionals parser ?toks (set_defaults parser []) [] = Inr (fil, [])"
    by (rule parse_args_Inr[OF fil])
  have a1: "map_of a1 ?d = Some (if to_cli name \<in> set ?toks then v_file else v_cli)"
  proof (cases "to_cli name \<in> set ?toks")
    case True
    then have "map_of a1 (dest b) = map_of fil (dest b)"
      using parse_optionals_same[OF po1 po2 parser_wf b(1)] b(2) by simp
    then show ?thesis using True b(3) vf by simp
  next
    case False
    have unt: "\<forall>a' \<in> set parser. dest a' = ?d \<longrightarrow> option_string a' \<notin> set ?toks"
    proof (intro ballI impI)
      fix a' assume "a' \<in> set parser" "dest a' = ?d"
      then have "a' = b" using parser_wf b(1,3) by (simp add: wf_actions_def distinct_map inj_on_def)
      then show "option_string a' \<notin> set ?toks" using False b(2) by simp
    qed
    have "map_of a1 ?d = map_of ?cli' ?d" by (rule parse_optionals_untouched[OF po1 unt])
    then show ?thesis using False vc dn by (simp add: update_conv')
  qed
  have av: "map_of a ?d = Some (if to_cli name \<in> set ?toks then v_file else v_cli)"
    using a a1 dn by (simp add: delete_conv')
  have "carried p ?d = defaulted today ?d (if to_cli name \<in> set ?toks then v_file else v_cli)"
    by (rule create_parameters_carried[OF cp create_namespace_keys[OF ns] dk av])
  then show ?thesis using vc vf by blast
qed

section \<open>Required flags\<close>



















text \<open>
  A flag that is among the tokens of neither the command line nor any readable file is
  \<^verbatim>\<open>None\<close> in the layered namespace.
\<close>

lemma absent_flag_is_None:
  assumes ns: "create_namespace files env argv = Inr a"
    and entry: "(name, c, mn, mx, h, req) \<in> set cli_args" and np: "name \<noteq> ''parameters''"
    and cli: "to_cli name \<notin> set argv"
    and fil: "\<forall>path contents. files path = Some contents \<longrightarrow> to_cli name \<notin> set (str_split contents)"
  shows "map_of a (dest_of (to_cli name)) = Some PNone"
proof -
  let ?d = "dest_of (to_cli name)"
  from entry_action[OF entry] obtain b where b: "b \<in> set parser" "option_string b = to_cli name"
    "dest b = ?d" by blast
  have dk: "?d \<in> set namespace_keys" by (rule entry_namespace_key[OF entry np])
  then have dn: "?d \<noteq> ''parameters''" using parameters_not_key by auto
  from create_namespace_cases[OF ns] obtain cli where
    p1: "parse_args parser argv [] = Inr cli" and
    cs: "a = AList.delete ''parameters'' cli \<or>
         (\<exists>path contents a1. files path = Some contents \<and>
            parse_args parser (str_split contents) (AList.update ''parameters'' (PStr path) cli) = Inr a1 \<and>
            a = AList.delete ''parameters'' a1)"
    by blast
  have "map_of cli ?d = map_of (set_defaults parser []) ?d"
    using parse_args_absent[OF p1 b(1)] cli b(2,3) by simp
  also have "\<dots> = Some PNone"
    using b(1,3) by (simp add: set_defaults_map_of) force
  finally have c: "map_of cli ?d = Some PNone" .
  from cs show ?thesis
  proof
    assume "a = AList.delete ''parameters'' cli"
    then show ?thesis using c dn by (simp add: delete_conv')
  next
    assume "\<exists>path contents a1. files path = Some contents \<and>
            parse_args parser (str_split contents) (AList.update ''parameters'' (PStr path) cli) = Inr a1 \<and>
            a = AList.delete ''parameters'' a1"
    then obtain path contents a1 where fc: "files path = Some contents" and
      p2: "parse_args parser (str_split contents) (AList.update ''parameters'' (PStr path) cli) = Inr a1"
      and a: "a = AList.delete ''parameters'' a1" by blast
    let ?cli' = "AList.update ''parameters'' (PStr path) cli"
    have kc: "map fst cli = map dest parser" by (rule parse_args_parser_keys[OF p1])
    have kc': "map fst ?cli' = map dest parser" using kc by (simp add: update_keys parser_dests)
    have sd: "set_defaults parser ?cli' = ?cli'" using parse_args_full_keys[OF p2 kc'] by blast
    have "option_string b \<notin> set (str_split contents)" using fil fc b(2) by simp
    then have "map_of a1 ?d = map_of ?cli' ?d"
      using parse_args_absent[OF p2 b(1)] sd b(3) by simp
    then show ?thesis using a c dn by (simp add: delete_conv' update_conv')
  qed
qed

lemma cli_args_members:
  "(''current_date'', C_cast_date, None, None, ''Current date (default is today)'', False)
     \<in> set cli_args"
  "(''population'', C_int, Some (PInt 1), None, ''Regional population >= 1'', True) \<in> set cli_args"
  "(''hospitalized_rate'', C_float, Some (PFloat (1 / 100000)), Some (PFloat 1),
      ''Hospitalized Rate: 0.00001 - 1.0'', True) \<in> set cli_args"
  "(''recovered'', C_int, Some (PInt 0), None, ''Initial recovered >= 0'', True) \<in> set cli_args"
  "(''icu_days'', C_int, Some (PInt 0), None, ''Average days in ICU'', True) \<in> set cli_args"
  "(''doubling_time'', C_float, Some (PFloat 0), None,
      ''Doubling time before social distancing (days)'', True) \<in> set cli_args"
  by (simp_all add: cli_args_def)

lemma to_cli_examples:
  "to_cli ''current_date'' = ''--current-date''"
  "to_cli ''population'' = ''--population''"
  "to_cli ''hospitalized_rate'' = ''--hospitalized-rate''"
  "to_cli ''recovered'' = ''--recovered''"
  "to_cli ''icu_days'' = ''--icu-days''"
  "to_cli ''doubling_time'' = ''--doubling-time''"
  by (simp_all add: to_cli_def)

lemma dest_examples:
  "dest_of ''--population'' = ''population''"
  "dest_of ''--recovered'' = ''recovered''"
  "dest_of ''--icu-days'' = ''icu_days''"
  "dest_of ''--current-date'' = ''current_date''"
  by (simp_all add: dest_of_def)




section \<open>Worked instances\<close>

lemma init_population: "Parameters_init today kwargs_population = Inr (params_population today)"
  by code_simp

text \<open>
  C10 at \<^verbatim>\<open>population=1000, hospitalized=Disposition(7, 0.025)\<close>.
\<close>

theorem Parameters_init_dispositions_table_witness:
  "Parameters_init (date 2020 3 28) kwargs_population = Inr (params_population (date 2020 3 28)) \<and>
   map_of (dispositions (params_population (date 2020 3 28))) ''hospitalized'' =
     Some (hospitalized (params_population (date 2020 3 28)))"
  using Parameters_init_dispositions_table [OF init_population [of "date 2020 3 28"]]
    init_population [of "date 2020 3 28"]
  by simp

text \<open>
  C9 at the same keywords, which set neither date.
\<close>

theorem Parameters_init_dates_default_today_witness:
  "Parameters_init (date 2020 3 28) kwargs_population = Inr (params_population (date 2020 3 28)) \<and>
   distinct (map fst kwargs_population) \<and>
   unset kwargs_population ''current_date'' \<and> unset kwargs_population ''mitigation_date'' \<and>
   current_date (params_population (date 2020 3 28)) = PDate (date 2020 3 28) \<and>
   mitigation_date (params_population (date 2020 3 28)) = PDate (date 2020 3 28)"
proof -
  have d: "distinct (map fst kwargs_population)" by (simp add: kwargs_population_def)
  have u: "unset kwargs_population ''current_date''" "unset kwargs_population ''mitigation_date''"
    by (simp_all add: kwargs_population_def unset_def)
  show ?thesis
    using Parameters_init_dates_default_today [OF init_population [of "date 2020 3 28"] d] u d
      init_population [of "date 2020 3 28"]
    by simp
qed

lemma init_neither_validated:
  "\<forall>(k, v) \<in> set kwargs_neither.
      \<exists>f c h. map_of ACCEPTED_PARAMETERS k = Some (f, c, h) \<and> f k v = Inr ()"
  by (simp add: kwargs_neither_def ACCEPTED_PARAMETERS_def ValDisposition_def Positive_def Rate_def
      num_of_def)

text \<open>
  C3 at the same keywords, and at \<^verbatim>\<open>hospitalized=Disposition(7, 0.025)\<close> alone.
\<close>

theorem Parameters_init_population_or_region_witness:
  "distinct (map fst kwargs_population) \<and>
   Parameters_init (date 2020 3 28) kwargs_population = Inr (params_population (date 2020 3 28)) \<and>
   (supplied kwargs_population ''region'' \<or> supplied kwargs_population ''population'') \<and>
   distinct (map fst kwargs_neither) \<and>
   \<not> supplied kwargs_neither ''region'' \<and> \<not> supplied kwargs_neither ''population'' \<and>
   Parameters_init (date 2020 3 28) kwargs_neither = Inl AssertionError"
proof -
  have d1: "distinct (map fst kwargs_population)" by (simp add: kwargs_population_def)
  have d2: "distinct (map fst kwargs_neither)" by (simp add: kwargs_neither_def)
  have n: "\<not> supplied kwargs_neither ''region''" "\<not> supplied kwargs_neither ''population''"
    by (simp_all add: kwargs_neither_def supplied_def)
  have 1: "supplied kwargs_population ''region'' \<or> supplied kwargs_population ''population''"
    using Parameters_init_population_or_region [OF d1, of "date 2020 3 28"]
      init_population [of "date 2020 3 28"] by blast
  have 2: "Parameters_init (date 2020 3 28) kwargs_neither = Inl AssertionError"
    using Parameters_init_population_or_region [OF d2, of "date 2020 3 28"] n init_neither_validated
    by blast
  show ?thesis using d1 d2 n 1 2 init_population [of "date 2020 3 28"] by blast
qed

text \<open>
  C8 at \<^verbatim>\<open>population=1000, foo=1\<close>.
\<close>

theorem Parameters_init_unexpected_first_witness:
  "''foo'' \<in> set (map fst kwargs_unknown) \<and> ''foo'' \<notin> set (map fst ACCEPTED_PARAMETERS) \<and>
   check_keys kwargs_unknown [] = Inl (UnexpectedParameter ''foo'') \<and>
   Parameters_init (date 2020 3 28) kwargs_unknown = Inl (UnexpectedParameter ''foo'')"
proof -
  have 1: "''foo'' \<in> set (map fst kwargs_unknown)" by (simp add: kwargs_unknown_def)
  have 2: "''foo'' \<notin> set (map fst ACCEPTED_PARAMETERS)" unfolding accepted_keys by simp
  have 3: "\<forall>j \<in> set (takeWhile (\<lambda>x. x \<noteq> ''foo'') (map fst kwargs_unknown)).
             j \<in> set (map fst ACCEPTED_PARAMETERS)"
    unfolding accepted_keys by (simp add: kwargs_unknown_def)
  from Parameters_init_unexpected_first [OF 1 2, of "date 2020 3 28"] 3
  have "check_keys kwargs_unknown [] = Inl (UnexpectedParameter ''foo'') \<and>
        Parameters_init (date 2020 3 28) kwargs_unknown = Inl (UnexpectedParameter ''foo'')"
    by (elim exE conjE) simp
  then show ?thesis using 1 2 by simp
qed

text \<open>
  C6 at the same keywords.
\<close>

theorem ACCEPTED_PARAMETERS_sixteen_witness:
  "card (set (map fst ACCEPTED_PARAMETERS)) = 16 \<and>
   \<not> set (map fst kwargs_unknown) \<subseteq> set (map fst ACCEPTED_PARAMETERS) \<and>
   (\<exists>k. Parameters_init (date 2020 3 28) kwargs_unknown = Inl (UnexpectedParameter k))"
proof -
  have "\<not> set (map fst kwargs_unknown) \<subseteq> set (map fst ACCEPTED_PARAMETERS)"
    unfolding accepted_keys by (simp add: kwargs_unknown_def)
  then show ?thesis using ACCEPTED_PARAMETERS_sixteen [of "date 2020 3 28" kwargs_unknown] by blast
qed

lemma casts_examples:
  "call_cast C_int ''0'' = Inr (PInt 0)"
  "call_cast C_float ''2'' = Inr (PFloat 2)"
  "call_cast C_float ''0.025'' = Inr (PFloat (25 / 1000))"
  "call_cast C_int ''abc'' = Inl (CastError ''int'' ''abc'')"
  by code_simp+

text \<open>
  C7 at \<^verbatim>\<open>--current-date\<close>, \<^verbatim>\<open>--population\<close> and \<^verbatim>\<open>--hospitalized-rate\<close>: the empty
  string, a value below the minimum, one above the maximum, one within the bounds and one
  that does not cast.
\<close>

theorem validator_cli_entry_witness:
  "validator ''--current-date'' C_cast_date None None False [] = Inr PNone \<and>
   validator ''--population'' C_int (Some (PInt 1)) None True [] = Inl (IsRequired ''--population'') \<and>
   validator ''--population'' C_int (Some (PInt 1)) None True ''0'' =
     Inl (MustBeGreater ''--population'' (PInt 1)) \<and>
   validator ''--hospitalized-rate'' C_float (Some (PFloat (1 / 100000))) (Some (PFloat 1)) True ''2'' =
     Inl (MustBeLess ''--hospitalized-rate'' (PFloat 1)) \<and>
   validator ''--hospitalized-rate'' C_float (Some (PFloat (1 / 100000))) (Some (PFloat 1)) True
     ''0.025'' = Inr (PFloat (25 / 1000)) \<and>
   validator ''--population'' C_int (Some (PInt 1)) None True ''abc'' =
     Inl (CastError ''int'' ''abc'')"
proof -
  have 1: "validator ''--current-date'' C_cast_date None None False [] = Inr PNone"
    using validator_cli_entry [OF cli_args_members(1), of "[]"] by (simp add: to_cli_examples)
  have 2: "validator ''--population'' C_int (Some (PInt 1)) None True [] =
           Inl (IsRequired ''--population'')"
    using validator_cli_entry [OF cli_args_members(2), of "[]"] by (simp add: to_cli_examples)
  have 3: "validator ''--population'' C_int (Some (PInt 1)) None True ''0'' =
           Inl (MustBeGreater ''--population'' (PInt 1))"
    using validator_cli_entry [OF cli_args_members(2), of "''0''"] casts_examples(1)
    by (simp add: to_cli_examples below_min_def num_of_def bound_def)
  have 4: "validator ''--hospitalized-rate'' C_float (Some (PFloat (1 / 100000))) (Some (PFloat 1))
             True ''2'' = Inl (MustBeLess ''--hospitalized-rate'' (PFloat 1))"
    using validator_cli_entry [OF cli_args_members(3), of "''2''"] casts_examples(2)
    by (simp add: to_cli_examples below_min_def above_max_def num_of_def bound_def)
  have 5: "validator ''--hospitalized-rate'' C_float (Some (PFloat (1 / 100000))) (Some (PFloat 1))
             True ''0.025'' = Inr (PFloat (25 / 1000))"
    using validator_cli_entry [OF cli_args_members(3), of "''0.025''"] casts_examples(3)
    by (simp add: to_cli_examples below_min_def above_max_def num_of_def bound_def)
  have 6: "validator ''--population'' C_int (Some (PInt 1)) None True ''abc'' =
           Inl (CastError ''int'' ''abc'')"
    using validator_cli_entry [OF cli_args_members(2), of "''abc''"] casts_examples(4)
    by (simp add: to_cli_examples)
  show ?thesis using 1 2 3 4 5 6 by (intro conjI)
qed



lemma override_values:
  "create (date 2020 3 28) files_override env_override argv_round_trip =
     Inr (params_override (date 2020 3 28))"
  "parse_args parser argv_round_trip [] = Inr namespace_cli"
  "parse_args parser (str_split contents_override) [] = Inr namespace_file"
  "str_split contents_override = [''--population'', ''2000'', ''--icu-days'', ''3'']"
  by code_simp+

text \<open>
  C2 at the argument vector of the round trip, with \<^verbatim>\<open>PARAMETERS\<close> naming a file that
  holds \<^verbatim>\<open>--population 2000\<close> and \<^verbatim>\<open>--icu-days 3\<close>: the population and the ICU days are
  the file's, the recovered count is the command line's.
\<close>

theorem create_file_overrides_cli_witness:
  "create (date 2020 3 28) files_override env_override argv_round_trip =
     Inr (params_override (date 2020 3 28)) \<and>
   ''--population'' \<in> set argv_round_trip \<and> ''--population'' \<in> set (str_split contents_override) \<and>
   map_of namespace_cli ''population'' = Some (PInt 1000) \<and>
   map_of namespace_file ''population'' = Some (PInt 2000) \<and>
   carried (params_override (date 2020 3 28)) ''population'' = PInt 2000 \<and>
   ''--recovered'' \<in> set argv_round_trip \<and> ''--recovered'' \<notin> set (str_split contents_override) \<and>
   map_of namespace_cli ''recovered'' = Some (PInt 0) \<and>
   carried (params_override (date 2020 3 28)) ''recovered'' = PInt 0 \<and>
   ''--icu-days'' \<in> set argv_round_trip \<and> ''--icu-days'' \<in> set (str_split contents_override) \<and>
   map_of namespace_file ''icu_days'' = Some (PInt 3) \<and>
   carried (params_override (date 2020 3 28)) ''icu_days'' = PInt 3"
proof -
  have p: "map_of namespace_cli ''parameters'' = Some (PStr ''chime.cfg'') \<or>
           map_of namespace_cli ''parameters'' = Some PNone \<and>
           env_override ''PARAMETERS'' = Some ''chime.cfg''"
    by (simp add: namespace_cli_def env_override_def)
  have f: "files_override ''chime.cfg'' = Some contents_override"
    by (simp add: files_override_def)
  have np: "''population'' \<noteq> ''parameters''" "''recovered'' \<noteq> ''parameters''"
    "''icu_days'' \<noteq> ''parameters''" by simp_all
  note ov = create_file_overrides_cli [OF override_values(1) override_values(2) p f override_values(3)]
  have c: "map_of namespace_cli ''population'' = Some (PInt 1000)"
    "map_of namespace_cli ''recovered'' = Some (PInt 0)"
    by (simp_all add: namespace_cli_def)
  have fl: "map_of namespace_file ''population'' = Some (PInt 2000)"
    "map_of namespace_file ''icu_days'' = Some (PInt 3)"
    "map_of namespace_file ''recovered'' = Some PNone"
    by (simp_all add: namespace_file_def)
  have m: "''--population'' \<in> set argv_round_trip" "''--recovered'' \<in> set argv_round_trip"
    "''--icu-days'' \<in> set argv_round_trip"
    by (simp_all add: argv_round_trip_def)
  have t: "''--population'' \<in> set (str_split contents_override)"
    "''--recovered'' \<notin> set (str_split contents_override)"
    "''--icu-days'' \<in> set (str_split contents_override)"
    unfolding override_values(4) by simp_all
  have 1: "carried (params_override (date 2020 3 28)) ''population'' = PInt 2000"
    using ov [OF cli_args_members(2) np(1)] c fl t
    by (simp add: to_cli_examples dest_examples defaulted_keys)
  have 2: "carried (params_override (date 2020 3 28)) ''recovered'' = PInt 0"
    using ov [OF cli_args_members(4) np(2)] c fl t
    by (simp add: to_cli_examples dest_examples defaulted_def)
  have 3: "carried (params_override (date 2020 3 28)) ''icu_days'' = PInt 3"
    using ov [OF cli_args_members(5) np(3)] c fl t
    by (simp add: to_cli_examples dest_examples defaulted_keys)
  show ?thesis using override_values(1) m t c fl(1,2) 1 2 3 by (intro conjI)
qed

end
